theory Spec2Isabelle
  imports Main "HOL-Library.Sublist"
begin

section \<open>Go values: outcomes, errors, strings\<close>

text \<open>
  The model follows \<^verbatim>\<open>internal/model/model.go\<close>. A Go \<^verbatim>\<open>string\<close> is a sequence of
  bytes, here a \<^typ>\<open>string\<close> (a list of 8-bit characters). A call either returns or
  aborts with a runtime panic (a slice expression out of range); a returned \<^verbatim>\<open>error\<close>
  is a value. The text of an error message is only logged by the source, so an error
  is modelled by the place that creates it.
\<close>

datatype 'a outcome = Done 'a | Panic

datatype error =
    ErrHeaderLen      \<comment> \<open>"Expected header with len >= 3"\<close>
  | ErrNoGoroutine    \<comment> \<open>"Expected goroutine header"\<close>
  | ErrParseID        \<comment> \<open>"Could not parse ID"\<close>
  | ErrParseMinutes   \<comment> \<open>"Failed to parse minutes"\<close>
  | ErrEndOfFile      \<comment> \<open>"Unexpected end of file"\<close>
  | ErrEmptyLine      \<comment> \<open>"Unexpected empty line"\<close>
  | ErrParsePos       \<comment> \<open>"Could parse stack pos ... to line int" (the hex offset)\<close>
  | ErrParseLine      \<comment> \<open>"Could parse line ... to line int" (the line number)\<close>
  | ErrTooLong        \<comment> \<open>\<^verbatim>\<open>bufio.ErrTooLong\<close>\<close>
  | ErrRead string    \<comment> \<open>any other non-EOF error of the underlying reader\<close>

text \<open>The slice expression \<^verbatim>\<open>s[lo:hi]\<close>: Go panics unless \<open>0 \<le> lo \<le> hi \<le> len(s)\<close>.\<close>

definition slice :: "string \<Rightarrow> int \<Rightarrow> int \<Rightarrow> string outcome" where
  "slice s lo hi =
     (if 0 \<le> lo \<and> lo \<le> hi \<and> hi \<le> int (length s)
      then Done (take (nat (hi - lo)) (drop (nat lo) s))
      else Panic)"

text \<open>\<^verbatim>\<open>strings.Index\<close> and \<^verbatim>\<open>strings.LastIndex\<close>: the byte index of the first (last)
  occurrence of \<open>sub\<close>, or \<open>-1\<close>.\<close>

fun Index :: "string \<Rightarrow> string \<Rightarrow> int" where
  "Index [] sub = (if sub = [] then 0 else -1)"
| "Index (c # cs) sub =
     (if prefix sub (c # cs) then 0
      else (let i = Index cs sub in if i < 0 then -1 else i + 1))"

fun LastIndex :: "string \<Rightarrow> string \<Rightarrow> int" where
  "LastIndex [] sub = (if sub = [] then 0 else -1)"
| "LastIndex (c # cs) sub =
     (let i = LastIndex cs sub
      in if 0 \<le> i then i + 1 else if prefix sub (c # cs) then 0 else -1)"

definition Contains :: "string \<Rightarrow> string \<Rightarrow> bool" where
  "Contains s sub = (0 \<le> Index s sub)"

definition HasPrefix :: "string \<Rightarrow> string \<Rightarrow> bool" where
  "HasPrefix s p = prefix p s"

definition HasSuffix :: "string \<Rightarrow> string \<Rightarrow> bool" where
  "HasSuffix s x = suffix x s"

text \<open>\<^verbatim>\<open>strings.Split(s, sep)\<close> cuts \<open>s\<close> at every occurrence of \<open>sep\<close>, from the left.
  The source passes the one-byte separators \<^verbatim>\<open>" "\<close> and \<^verbatim>\<open>","\<close>; for the empty
  separator (never passed) Go cuts after each UTF-8 sequence, which is each byte of an
  ASCII text.\<close>

lemma Index_nonneg_nonempty: "0 \<le> Index s sep \<Longrightarrow> sep \<noteq> [] \<Longrightarrow> s \<noteq> []"
  by (cases s) auto

function Split :: "string \<Rightarrow> string \<Rightarrow> string list" where
  "Split s sep =
     (if sep = [] then map (\<lambda>c. [c]) s
      else (let m = Index s sep
            in if m < 0 then [s]
               else take (nat m) s # Split (drop (nat m + length sep) s) sep))"
  by pat_completeness auto
termination
proof (relation "measure (\<lambda>(s, sep). length s)")
  show "wf (measure (\<lambda>(s, sep). length s))" by simp
next
  fix s sep :: string and m :: int
  assume "sep \<noteq> []" and "m = Index s sep" and "\<not> m < 0"
  then have "s \<noteq> []" using Index_nonneg_nonempty [of s sep] by simp
  with \<open>sep \<noteq> []\<close>
  show "((drop (nat m + length sep) s, sep), (s, sep)) \<in> measure (\<lambda>(s, sep). length s)"
    by (cases sep) auto
qed

declare Split.simps [simp del]

text \<open>\<^verbatim>\<open>strings.Trim(s, cutset)\<close> for a cutset of ASCII bytes.\<close>

definition Trim :: "string \<Rightarrow> string \<Rightarrow> string" where
  "Trim s cutset =
     rev (dropWhile (\<lambda>c. c \<in> set cutset) (rev (dropWhile (\<lambda>c. c \<in> set cutset) s)))"

text \<open>\<^verbatim>\<open>strings.TrimSpace\<close> removes the white space of Unicode from both ends: the six
  ASCII bytes, and the runes U+0085, U+00A0, U+1680, U+2000..U+200A, U+2028, U+2029,
  U+202F, U+205F, U+3000 in their UTF-8 encoding. A rune is decoded at the start (at the
  end) of the text exactly when its encoding is a prefix (a suffix) of the text.\<close>

definition spaces :: "string list" where
  "spaces =
     [[CHR 0x09], [CHR 0x0A], [CHR 0x0B], [CHR 0x0C], [CHR 0x0D], [CHR 0x20],
      [CHR 0xC2, CHR 0x85], [CHR 0xC2, CHR 0xA0], [CHR 0xE1, CHR 0x9A, CHR 0x80],
      [CHR 0xE2, CHR 0x80, CHR 0x80], [CHR 0xE2, CHR 0x80, CHR 0x81],
      [CHR 0xE2, CHR 0x80, CHR 0x82], [CHR 0xE2, CHR 0x80, CHR 0x83],
      [CHR 0xE2, CHR 0x80, CHR 0x84], [CHR 0xE2, CHR 0x80, CHR 0x85],
      [CHR 0xE2, CHR 0x80, CHR 0x86], [CHR 0xE2, CHR 0x80, CHR 0x87],
      [CHR 0xE2, CHR 0x80, CHR 0x88], [CHR 0xE2, CHR 0x80, CHR 0x89],
      [CHR 0xE2, CHR 0x80, CHR 0x8A], [CHR 0xE2, CHR 0x80, CHR 0xA8],
      [CHR 0xE2, CHR 0x80, CHR 0xA9], [CHR 0xE2, CHR 0x80, CHR 0xAF],
      [CHR 0xE2, CHR 0x81, CHR 0x9F], [CHR 0xE3, CHR 0x80, CHR 0x80]]"

function trimLeft :: "string list \<Rightarrow> string \<Rightarrow> string" where
  "trimLeft us s =
     (case find (\<lambda>u. u \<noteq> [] \<and> prefix u s) us of
        None \<Rightarrow> s
      | Some u \<Rightarrow> trimLeft us (drop (length u) s))"
  by pat_completeness auto
termination
proof (relation "measure (\<lambda>(us, s). length s)")
  show "wf (measure (\<lambda>(us, s). length s))" by simp
next
  fix us :: "string list" and s u :: string
  assume "find (\<lambda>u. u \<noteq> [] \<and> prefix u s) us = Some u"
  then have "u \<noteq> [] \<and> prefix u s" by (auto simp: find_Some_iff)
  then show "((us, drop (length u) s), (us, s)) \<in> measure (\<lambda>(us, s). length s)"
    by (cases u; cases s) auto
qed

declare trimLeft.simps [simp del]

definition TrimSpace :: "string \<Rightarrow> string" where
  "TrimSpace s = rev (trimLeft (map rev spaces) (rev (trimLeft spaces s)))"

text \<open>\<^verbatim>\<open>strconv.ParseInt(s, base, bitSize)\<close> for an explicit base (the source passes 10
  and 16): an optional sign, then at least one digit, every digit below the base, no
  prefix and no underscore; the value must fit \<open>bitSize\<close> bits in two's complement.
  \<open>None\<close> is a non-nil error (syntax or range). Go detects the overflow while it
  accumulates; the sum over unbounded numbers with the range check at the end rejects
  the same texts.\<close>

definition digitVal :: "char \<Rightarrow> nat option" where
  "digitVal c =
     (let n = (of_char c :: nat)
      in if 48 \<le> n \<and> n \<le> 57 then Some (n - 48)
         else if 97 \<le> n \<and> n \<le> 122 then Some (n - 97 + 10)
         else if 65 \<le> n \<and> n \<le> 90 then Some (n - 65 + 10)
         else None)"

fun parseDigits :: "nat \<Rightarrow> string \<Rightarrow> nat \<Rightarrow> nat option" where
  "parseDigits b [] n = Some n"
| "parseDigits b (c # cs) n =
     (case digitVal c of
        None \<Rightarrow> None
      | Some d \<Rightarrow> if b \<le> d then None else parseDigits b cs (n * b + d))"

definition ParseInt :: "string \<Rightarrow> nat \<Rightarrow> nat \<Rightarrow> int option" where
  "ParseInt s base bitSize =
     (case s of
        [] \<Rightarrow> None
      | c # cs \<Rightarrow>
          (let neg = (c = CHR ''-'');
               ds = (if c = CHR ''+'' \<or> c = CHR ''-'' then cs else s)
           in if ds = [] then None
              else (case parseDigits base ds 0 of
                      None \<Rightarrow> None
                    | Some un \<Rightarrow>
                        (let cutoff = (2::int) ^ (bitSize - 1)
                         in if \<not> neg \<and> cutoff \<le> int un then None
                            else if neg \<and> cutoff < int un then None
                            else Some (if neg then - int un else int un)))))"

text \<open>\<^verbatim>\<open>strings.ToLower\<close>: a text of ASCII bytes only is lowered byte by byte. Any other
  text goes through the case tables of Unicode, which are not part of the repository:
  \<open>uni\<close> stands for \<^verbatim>\<open>strings.Map(unicode.ToLower, s)\<close> on such a text.\<close>

definition lowerByte :: "char \<Rightarrow> char" where
  "lowerByte c =
     (let n = (of_char c :: nat) in if 65 \<le> n \<and> n \<le> 90 then char_of (n + 32) else c)"

definition ToLower :: "(string \<Rightarrow> string) \<Rightarrow> string \<Rightarrow> string" where
  "ToLower uni s =
     (if list_all (\<lambda>c. (of_char c :: nat) < 128) s then map lowerByte s else uni s)"

text \<open>The verbs \<^verbatim>\<open>%d\<close> and \<^verbatim>\<open>%x\<close> of \<^verbatim>\<open>fmt\<close>: decimal with a sign, and lower-case
  hexadecimal of an unsigned number, both without leading zeros.\<close>

definition digitChar :: "nat \<Rightarrow> char" where
  "digitChar d = ''0123456789abcdef'' ! d"

function digitsOf :: "nat \<Rightarrow> nat \<Rightarrow> string" where
  "digitsOf b n =
     (if b < 2 \<or> n < b then [digitChar n]
      else digitsOf b (n div b) @ [digitChar (n mod b)])"
  by pat_completeness auto
termination
  by (relation "measure (\<lambda>(b, n). n)") auto

declare digitsOf.simps [simp del]

definition fmt_d :: "int \<Rightarrow> string" where
  "fmt_d i = (if i < 0 then CHR ''-'' # digitsOf 10 (nat (- i)) else digitsOf 10 (nat i))"

definition fmt_x :: "nat \<Rightarrow> string" where
  "fmt_x n = digitsOf 16 n"

section \<open>The data model\<close>

text \<open>
  \<^verbatim>\<open>Line int32\<close> and the 64-bit fields are integers: every value stored comes out of
  \<^verbatim>\<open>ParseInt\<close> with that bit size, so no conversion wraps (\<^verbatim>\<open>int\<close> has 64 bits on the
  platforms the tool is built for). \<^verbatim>\<open>Position *int\<close> is \<open>None\<close> for \<^verbatim>\<open>nil\<close> and
  \<open>Some v\<close> for a pointer to a variable that holds \<open>v\<close>; the variable is never written
  after \<^verbatim>\<open>parseStackPos\<close> has made it. \<^verbatim>\<open>CratedBy *StackFrame\<close> likewise.
\<close>

record StackFrame =
  FuncName :: string
  File :: string
  Line :: int
  Position :: "int option"

record Goroutine =
  ID :: int
  Status :: string
  WaitSinceMin :: int
  StackTrace :: "StackFrame list"
  CratedBy :: "StackFrame option"
  LockedToThread :: bool

text \<open>
  \<^verbatim>\<open>StackFrame.String\<close> hands the pointer \<^verbatim>\<open>s.Position\<close> itself to the verb \<^verbatim>\<open>%x\<close>, and
  \<^verbatim>\<open>fmt\<close> prints a pointer under \<^verbatim>\<open>%x\<close> as the number that the pointer is: its address,
  \<open>0\<close> for \<^verbatim>\<open>nil\<close>. The address of the variable is chosen by the allocator, not by the
  program text, so it is a parameter: \<open>String addr s\<close> is \<^verbatim>\<open>s.String()\<close> when the variable
  that a non-nil \<^verbatim>\<open>s.Position\<close> points to lives at address \<open>addr\<close>.
\<close>

definition pointerValue :: "nat \<Rightarrow> int option \<Rightarrow> nat" where
  "pointerValue addr p = (case p of None \<Rightarrow> 0 | Some v \<Rightarrow> addr)"

definition String :: "nat \<Rightarrow> StackFrame \<Rightarrow> string" where
  "String addr s =
     FuncName s @ [CHR 0x0A] @ ''   file://'' @ File s @ ''#'' @ fmt_d (Line s)
       @ '' +0x'' @ fmt_x (pointerValue addr (Position s))"

text \<open>\<^verbatim>\<open>StackContains\<close>: the loop over the slice, with the index of the element at hand;
  \<open>addr i\<close> is the address held by the \<^verbatim>\<open>Position\<close> of element \<open>i\<close>.\<close>

fun StackContainsFrom ::
  "(string \<Rightarrow> string) \<Rightarrow> (nat \<Rightarrow> nat) \<Rightarrow> nat \<Rightarrow> StackFrame list \<Rightarrow> string \<Rightarrow> bool" where
  "StackContainsFrom uni addr i [] subString = False"
| "StackContainsFrom uni addr i (s # sf) subString =
     (if Contains (ToLower uni (String (addr i) s)) subString then True
      else StackContainsFrom uni addr (Suc i) sf subString)"

definition StackContains ::
  "(string \<Rightarrow> string) \<Rightarrow> (nat \<Rightarrow> nat) \<Rightarrow> StackFrame list \<Rightarrow> string \<Rightarrow> bool" where
  "StackContains uni addr sf subString = StackContainsFrom uni addr 0 sf subString"

section \<open>The line scanner\<close>

text \<open>
  \<^verbatim>\<open>bufio.NewScanner(reader)\<close> with the default split function. The source uses three
  methods only: \<^verbatim>\<open>Scan\<close>, \<^verbatim>\<open>Text\<close> and \<^verbatim>\<open>Err\<close>. A scanner is therefore the lines it has
  yet to deliver, \<open>pending\<close>, and the error that \<^verbatim>\<open>Err\<close> reports once \<^verbatim>\<open>Scan\<close> has
  returned false, \<open>failure\<close> (\<open>None\<close> after a clean end of the stream). When the
  underlying read fails, the scanner still delivers what it has buffered, then stops:
  after the end of the stream or a failed read every later \<^verbatim>\<open>Scan\<close> is false as well.
\<close>

record Scanner =
  pending :: "string list"
  failure :: "error option"

definition Scan :: "Scanner \<Rightarrow> string option \<times> Scanner" where
  \<comment> \<open>\<^verbatim>\<open>scanner.Scan()\<close> followed by \<^verbatim>\<open>scanner.Text()\<close>; \<open>None\<close> when \<^verbatim>\<open>Scan\<close> is false\<close>
  "Scan sc =
     (case pending sc of
        [] \<Rightarrow> (None, sc)
      | l # ls \<Rightarrow> (Some l, sc\<lparr>pending := ls\<rparr>))"

definition Err :: "Scanner \<Rightarrow> error option" where
  "Err sc = failure sc"

text \<open>
  The scanner over a reader of an in-memory text (\<^verbatim>\<open>strings.NewReader\<close>), which ends
  cleanly. \<^verbatim>\<open>bufio.ScanLines\<close> cuts at each newline, drops one carriage return before
  it, and delivers a last line without newline unless it is empty. A line of 65536
  bytes or more does not fit the buffer: \<^verbatim>\<open>Scan\<close> is false there with
  \<^verbatim>\<open>bufio.ErrTooLong\<close>, and the lines are given up to that point. A \<^verbatim>\<open>Scan\<close> called
  once more after that would hand back the bytes held in the buffer; this is not
  represented, and no statement below reads a text with a line that long.
\<close>

definition dropCR :: "string \<Rightarrow> string" where
  "dropCR l = (if l \<noteq> [] \<and> last l = CHR 0x0D then butlast l else l)"

definition rawLines :: "string \<Rightarrow> string list" where
  "rawLines s = (let ps = Split s [CHR 0x0A] in if last ps = [] then butlast ps else ps)"

definition MaxScanTokenSize :: nat where
  "MaxScanTokenSize = 64 * 1024"

definition textScanner :: "string \<Rightarrow> Scanner" where
  "textScanner s =
     (let ls = rawLines s; fit = takeWhile (\<lambda>l. length l < MaxScanTokenSize) ls
      in \<lparr>pending = map dropCR fit,
          failure = (if length fit < length ls then Some ErrTooLong else None)\<rparr>)"

section \<open>The parser\<close>

text \<open>
  \<^verbatim>\<open>parseStackPos\<close> after the line is read: \<open>stackPos l\<close> is the rest of the function on
  the line \<open>l\<close> that \<^verbatim>\<open>scanner.Text()\<close> gave. The result \<open>Inl e\<close> is a return with
  \<^verbatim>\<open>err != nil\<close> (the callers then read no other result); \<open>Inr (fileName, line, pos)\<close> is
  a return with \<^verbatim>\<open>err == nil\<close>.
\<close>

definition stackPos :: "string \<Rightarrow> (error + string \<times> int \<times> int option) outcome" where
  "stackPos l =
     (let text = TrimSpace l
      in if length text = 0 then Done (Inl ErrEmptyLine)
         else
           (let fileLineSep = LastIndex text '':''
            in case slice text 0 fileLineSep of
                 Panic \<Rightarrow> Panic
               | Done fileName \<Rightarrow>
                   (let linePosSep = LastIndex text '' ''
                    in if linePosSep \<le> fileLineSep + 1
                       then (case slice text (fileLineSep + 1) (int (length text)) of
                               Panic \<Rightarrow> Panic
                             | Done lineStr \<Rightarrow>
                                 (case ParseInt lineStr 10 32 of
                                    None \<Rightarrow> Done (Inl ErrParseLine)
                                  | Some lineInt \<Rightarrow> Done (Inr (fileName, lineInt, None))))
                       else (case slice text (linePosSep + 4) (int (length text)) of
                               Panic \<Rightarrow> Panic
                             | Done posStr \<Rightarrow>
                                 (case ParseInt posStr 16 64 of
                                    None \<Rightarrow> Done (Inl ErrParsePos)
                                  | Some posInt \<Rightarrow>
                                      (case slice text (fileLineSep + 1) linePosSep of
                                         Panic \<Rightarrow> Panic
                                       | Done lineStr \<Rightarrow>
                                           (case ParseInt lineStr 10 32 of
                                              None \<Rightarrow> Done (Inl ErrParseLine)
                                            | Some lineInt \<Rightarrow>
                                                Done (Inr (fileName, lineInt, Some posInt)))))))))"

definition parseStackPos ::
  "Scanner \<Rightarrow> ((error + string \<times> int \<times> int option) \<times> Scanner) outcome" where
  "parseStackPos scanner =
     (case Scan scanner of
        (None, sc) \<Rightarrow> Done (Inl ErrEndOfFile, sc)
      | (Some l, sc) \<Rightarrow>
          (case stackPos l of Panic \<Rightarrow> Panic | Done r \<Rightarrow> Done (r, sc)))"

text \<open>The loop of \<^verbatim>\<open>parseHeader\<close> over \<^verbatim>\<open>stateParts[1:]\<close>, with the two variables it
  assigns, \<^verbatim>\<open>waitTimeMin\<close> and \<^verbatim>\<open>lockedToThread\<close>.\<close>

fun qualifiers :: "string list \<Rightarrow> int \<Rightarrow> bool \<Rightarrow> (error + int \<times> bool) outcome" where
  "qualifiers [] waitTimeMin lockedToThread = Done (Inr (waitTimeMin, lockedToThread))"
| "qualifiers (p # ps) waitTimeMin lockedToThread =
     (let part = Trim p '' ''
      in if HasSuffix part ''minutes''
         then (let minUnitSep = Index part '' ''
               in case slice part 0 minUnitSep of
                    Panic \<Rightarrow> Panic
                  | Done ds \<Rightarrow>
                      (case ParseInt ds 10 64 of
                         None \<Rightarrow> Done (Inl ErrParseMinutes)
                       | Some w \<Rightarrow> qualifiers ps w lockedToThread))
         else if part = ''locked to thread'' then qualifiers ps waitTimeMin True
         else qualifiers ps waitTimeMin lockedToThread)"

definition parseHeader :: "string \<Rightarrow> (error + Goroutine) outcome" where
  "parseHeader header =
     (let routineHeader = Split header '' ''
      in if length routineHeader < 3 then Done (Inl ErrHeaderLen)
         else if routineHeader ! 0 \<noteq> ''goroutine'' then Done (Inl ErrNoGoroutine)
         else
           (case ParseInt (routineHeader ! 1) 10 64 of
              None \<Rightarrow> Done (Inl ErrParseID)
            | Some id' \<Rightarrow>
                (let stateStartIdx = Index header ''[''
                 in case slice header (stateStartIdx + 1) (int (length header) - 2) of
                      Panic \<Rightarrow> Panic
                    | Done fullState \<Rightarrow>
                        (let stateParts = Split fullState '',''
                         in if length stateParts = 1
                            then Done (Inr \<lparr>ID = id', Status = fullState, WaitSinceMin = 0,
                                   StackTrace = [], CratedBy = None, LockedToThread = False\<rparr>)
                            else
                              (case qualifiers (tl stateParts) 0 False of
                                 Panic \<Rightarrow> Panic
                               | Done (Inl e) \<Rightarrow> Done (Inl e)
                               | Done (Inr (waitTimeMin, lockedToThread)) \<Rightarrow>
                                   Done (Inr \<lparr>ID = id', Status = stateParts ! 0,
                                     WaitSinceMin = waitTimeMin, StackTrace = [],
                                     CratedBy = None, LockedToThread = lockedToThread\<rparr>))))))"

text \<open>
  The inner loop of \<^verbatim>\<open>ParseStackFrame\<close>: it reads trace lines until a line of length 0
  or the end of the stream, and ends with the record and the scanner. A failed
  \<^verbatim>\<open>parseStackPos\<close> is logged and the loop goes on (\<^verbatim>\<open>continue\<close>); a panic is not
  recovered anywhere. \<^verbatim>\<open>log.Printf\<close> changes no result and is left out.
\<close>

lemma Scan_pending:
  "Scan sc = (Some l, sc') \<Longrightarrow> length (pending sc') < length (pending sc)"
  by (auto simp: Scan_def split: list.splits)

lemma parseStackPos_pending:
  "parseStackPos sc = Done (r, sc') \<Longrightarrow> length (pending sc') \<le> length (pending sc)"
  by (auto simp: parseStackPos_def Scan_def split: list.splits outcome.splits)

function frames :: "Goroutine \<Rightarrow> Scanner \<Rightarrow> (Goroutine \<times> Scanner) outcome" where
  "frames routine scanner =
     (case Scan scanner of
        (None, sc) \<Rightarrow> Done (routine, sc)
      | (Some traceLine, sc) \<Rightarrow>
          if length traceLine = 0 then Done (routine, sc)
          else if HasPrefix traceLine ''created by '' then
            (case parseStackPos sc of
               Panic \<Rightarrow> Panic
             | Done (Inl e, sc') \<Rightarrow> frames routine sc'
             | Done (Inr (file, line, pos), sc') \<Rightarrow>
                 frames (routine\<lparr>CratedBy := Some \<lparr>FuncName = drop 11 traceLine,
                           File = file, Line = line, Position = pos\<rparr>\<rparr>) sc')
          else
            (case parseStackPos sc of
               Panic \<Rightarrow> Panic
             | Done (Inl e, sc') \<Rightarrow> frames routine sc'
             | Done (Inr (file, line, pos), sc') \<Rightarrow>
                 frames (routine\<lparr>StackTrace := StackTrace routine @
                           [\<lparr>FuncName = traceLine, File = file, Line = line,
                             Position = pos\<rparr>]\<rparr>) sc'))"
  by pat_completeness auto
termination
proof (relation "measure (\<lambda>(routine, scanner). length (pending scanner))")
qed (auto dest!: Scan_pending parseStackPos_pending sym [of "(Some _, _)"]
       sym [of "Done _"])

declare frames.simps [simp del]

lemma frames_pending:
  "frames r sc = Done (r', sc') \<Longrightarrow> length (pending sc') \<le> length (pending sc)"
proof (induction "length (pending sc)" arbitrary: r sc rule: less_induct)
  case less
  show ?case
  proof (cases "Scan sc")
    case (Pair o1 sc1)
    show ?thesis
    proof (cases o1)
      case None
      with Pair less.prems show ?thesis
        by (auto simp: frames.simps [of r sc] Scan_def split: list.splits)
    next
      case (Some traceLine)
      with Pair have sc1: "length (pending sc1) < length (pending sc)"
        by (auto dest: Scan_pending)
      have step: "length (pending sc') \<le> length (pending sc2)"
        if "frames r2 sc2 = Done (r', sc')" and "length (pending sc2) \<le> length (pending sc1)"
        for r2 sc2
        using less.hyps [of sc2 r2] that sc1 by simp
      from Some Pair less.prems sc1 show ?thesis
        by (auto simp: frames.simps [of r sc]
              split: if_splits outcome.splits sum.splits prod.splits
              dest!: parseStackPos_pending dest: step)
    qed
  qed
qed

text \<open>The outer loop with the slice \<^verbatim>\<open>routines\<close>; a header that fails to parse is logged
  and the loop goes on with the next line.\<close>

function headers :: "Goroutine list \<Rightarrow> Scanner \<Rightarrow> (Goroutine list \<times> Scanner) outcome" where
  "headers routines scanner =
     (case Scan scanner of
        (None, sc) \<Rightarrow> Done (routines, sc)
      | (Some line, sc) \<Rightarrow>
          (case parseHeader line of
             Panic \<Rightarrow> Panic
           | Done (Inl e) \<Rightarrow> headers routines sc
           | Done (Inr routine) \<Rightarrow>
               (case frames (routine\<lparr>StackTrace := []\<rparr>) sc of
                  Panic \<Rightarrow> Panic
                | Done (routine', sc') \<Rightarrow> headers (routines @ [routine']) sc')))"
  by pat_completeness auto
termination
proof (relation "measure (\<lambda>(routines, scanner). length (pending scanner))")
qed (auto dest!: Scan_pending frames_pending sym [of "(Some _, _)"] sym [of "Done _"])

declare headers.simps [simp del]

text \<open>\<^verbatim>\<open>ParseStackFrame(reader)\<close>, on the scanner that \<^verbatim>\<open>bufio.NewScanner(reader)\<close> is.
  Both named results are returned as they stand at the end: \<^verbatim>\<open>routines\<close> and
  \<^verbatim>\<open>scanner.Err()\<close>.\<close>

definition ParseStackFrame :: "Scanner \<Rightarrow> (Goroutine list \<times> error option) outcome" where
  "ParseStackFrame scanner =
     (case headers [] scanner of
        Panic \<Rightarrow> Panic
      | Done (routines, sc) \<Rightarrow> Done (routines, Err sc))"

section \<open>The dump format\<close>

text \<open>
  The texts the claims speak about, built from their parts. A header line is
  \<^verbatim>\<open>goroutine <id> [<status>(, <qualifier>)*]:\<close>.
\<close>

fun qualifier_text :: "string list \<Rightarrow> string" where
  "qualifier_text [] = []"
| "qualifier_text (q # qs) = '', '' @ q @ qualifier_text qs"

definition header_line :: "string \<Rightarrow> string \<Rightarrow> string list \<Rightarrow> string" where
  "header_line ids status quals =
     ''goroutine '' @ ids @ '' ['' @ status @ qualifier_text quals @ '']:''"

text \<open>The shapes of a qualifier, read as the spec words them, around any blanks: an
  integer followed by the word \<^verbatim>\<open>minutes\<close>, the text \<^verbatim>\<open>locked to thread\<close>, and the
  test on the last word that the code makes first.\<close>

definition minutes_qualifier :: "string \<Rightarrow> int \<Rightarrow> bool" where
  "minutes_qualifier q n =
     (\<exists>ds. Trim q '' '' = ds @ '' minutes'' \<and> ParseInt ds 10 64 = Some n)"

definition locked_qualifier :: "string \<Rightarrow> bool" where
  "locked_qualifier q = (Trim q '' '' = ''locked to thread'')"

definition ends_in_minutes :: "string \<Rightarrow> bool" where
  "ends_in_minutes q = HasSuffix (Trim q '' '') ''minutes''"

text \<open>The header that the Go runtime prints: the status, then the wait in minutes when
  there is one, then the thread lock when there is one.\<close>

definition runtime_header :: "string \<Rightarrow> string \<Rightarrow> string option \<Rightarrow> bool \<Rightarrow> string" where
  "runtime_header ids status waitfor locked =
     header_line ids status
       ((case waitfor of None \<Rightarrow> [] | Some ds \<Rightarrow> [ds @ '' minutes''])
        @ (if locked then [''locked to thread''] else []))"

text \<open>A header is malformed, in the words of the spec, when it has fewer than three
  tokens between single blanks, or its first token is not \<^verbatim>\<open>goroutine\<close>, or its second
  token is not an integer of 64 bits.\<close>

definition malformed_header :: "string \<Rightarrow> bool" where
  "malformed_header l =
     (let ts = Split l '' ''
      in length ts < 3 \<or> ts ! 0 \<noteq> ''goroutine'' \<or> ParseInt (ts ! 1) 10 64 = None)"

text \<open>A stack entry is a function-name line and the position line after it. The frame
  it stands for, when the position line parses; the trace and the creator of a list of
  entries, as the spec describes them: the frames of the entries that are not marked
  \<^verbatim>\<open>created by\<close>, in their order, and the last frame that is.\<close>

type_synonym entry = "string \<times> string"

definition entry_lines :: "entry list \<Rightarrow> string list" where
  "entry_lines es = concat (map (\<lambda>en. [fst en, snd en]) es)"

definition created_by :: "entry \<Rightarrow> bool" where
  "created_by en = HasPrefix (fst en) ''created by ''"

definition frame_of :: "entry \<Rightarrow> StackFrame option" where
  "frame_of en =
     (case stackPos (snd en) of
        Done (Inr (file, line, pos)) \<Rightarrow>
          Some \<lparr>FuncName = (if created_by en then drop 11 (fst en) else fst en),
                File = file, Line = line, Position = pos\<rparr>
      | _ \<Rightarrow> None)"

definition trace_of :: "entry list \<Rightarrow> StackFrame list" where
  "trace_of es = List.map_filter frame_of (filter (\<lambda>en. \<not> created_by en) es)"

definition creator_of :: "entry list \<Rightarrow> StackFrame option" where
  "creator_of es =
     (let fs = List.map_filter frame_of (filter created_by es)
      in if fs = [] then None else Some (last fs))"

text \<open>A block is a header line, its entries and the blank line that ends it. It is
  well formed when the header parses and every entry has a function name and a position
  line that parses; it is a block with a malformed header when the header is malformed
  and no line of its body could pass for a header either.\<close>

datatype block = Block (head_line: string) (entries: "entry list")

definition block_lines :: "block \<Rightarrow> string list" where
  "block_lines b = head_line b # entry_lines (entries b) @ [[]]"

definition header_parses :: "string \<Rightarrow> bool" where
  "header_parses l = (case parseHeader l of Done (Inr r) \<Rightarrow> True | _ \<Rightarrow> False)"

definition well_formed :: "block \<Rightarrow> bool" where
  "well_formed b =
     (header_parses (head_line b) \<and>
      (\<forall>en\<in>set (entries b). fst en \<noteq> [] \<and> frame_of en \<noteq> None))"

definition malformed_block :: "block \<Rightarrow> bool" where
  "malformed_block b =
     (malformed_header (head_line b) \<and>
      (\<forall>en\<in>set (entries b). malformed_header (fst en) \<and> malformed_header (snd en)))"

definition record_of :: "block \<Rightarrow> Goroutine option" where
  "record_of b =
     (case parseHeader (head_line b) of
        Done (Inr r) \<Rightarrow>
          Some (r\<lparr>StackTrace := trace_of (entries b), CratedBy := creator_of (entries b)\<rparr>)
      | _ \<Rightarrow> None)"

section \<open>The loops, one line at a time\<close>

text \<open>What each loop does with the next line of the stream, by the lines still pending.\<close>

lemma frames_end:
  "frames r \<lparr>pending = [], failure = e\<rparr> = Done (r, \<lparr>pending = [], failure = e\<rparr>)"
  by (simp add: frames.simps [of r] Scan_def)

lemma frames_blank:
  "frames r \<lparr>pending = [] # ls, failure = e\<rparr> = Done (r, \<lparr>pending = ls, failure = e\<rparr>)"
  by (simp add: frames.simps [of r] Scan_def)

lemma frames_last:
  "t \<noteq> [] \<Longrightarrow>
   frames r \<lparr>pending = [t], failure = e\<rparr> = Done (r, \<lparr>pending = [], failure = e\<rparr>)"
  by (simp add: frames.simps [of r "\<lparr>pending = [t], failure = e\<rparr>"] Scan_def
        parseStackPos_def frames_end)

lemma frames_entry:
  "t \<noteq> [] \<Longrightarrow>
   frames r \<lparr>pending = t # p # ls, failure = e\<rparr> =
     (case stackPos p of
        Panic \<Rightarrow> Panic
      | Done (Inl x) \<Rightarrow> frames r \<lparr>pending = ls, failure = e\<rparr>
      | Done (Inr (file, line, pos)) \<Rightarrow>
          frames (if HasPrefix t ''created by ''
                  then r\<lparr>CratedBy := Some \<lparr>FuncName = drop 11 t, File = file,
                         Line = line, Position = pos\<rparr>\<rparr>
                  else r\<lparr>StackTrace := StackTrace r @
                         [\<lparr>FuncName = t, File = file, Line = line, Position = pos\<rparr>]\<rparr>)
            \<lparr>pending = ls, failure = e\<rparr>)"
  by (simp add: frames.simps [of r "\<lparr>pending = t # p # ls, failure = e\<rparr>"] Scan_def
        parseStackPos_def split: outcome.splits sum.splits prod.splits)

lemma headers_end:
  "headers rs \<lparr>pending = [], failure = e\<rparr> = Done (rs, \<lparr>pending = [], failure = e\<rparr>)"
  by (simp add: headers.simps [of rs] Scan_def)

lemma headers_line:
  "headers rs \<lparr>pending = l # ls, failure = e\<rparr> =
     (case parseHeader l of
        Panic \<Rightarrow> Panic
      | Done (Inl x) \<Rightarrow> headers rs \<lparr>pending = ls, failure = e\<rparr>
      | Done (Inr r) \<Rightarrow>
          (case frames (r\<lparr>StackTrace := []\<rparr>) \<lparr>pending = ls, failure = e\<rparr> of
             Panic \<Rightarrow> Panic
           | Done (r', sc') \<Rightarrow> headers (rs @ [r']) sc'))"
  by (simp add: headers.simps [of rs "\<lparr>pending = l # ls, failure = e\<rparr>"] Scan_def)

section \<open>Facts about the string functions\<close>

lemma Index_single_notin: "c \<notin> set s \<Longrightarrow> Index s [c] = -1"
  by (induction s) auto

lemma Index_single_append: "c \<notin> set a \<Longrightarrow> Index (a @ c # b) [c] = int (length a)"
  by (induction a) auto

lemma LastIndex_single_notin: "c \<notin> set s \<Longrightarrow> LastIndex s [c] = -1"
  by (induction s) auto

lemma LastIndex_single_append: "c \<notin> set b \<Longrightarrow> LastIndex (a @ c # b) [c] = int (length a)"
  by (induction a) (auto simp: LastIndex_single_notin Let_def)

lemma Split_notin: "c \<notin> set s \<Longrightarrow> Split s [c] = [s]"
  by (simp add: Split.simps [of s] Index_single_notin)

lemma Split_append: "c \<notin> set a \<Longrightarrow> Split (a @ c # b) [c] = a # Split b [c]"
  by (simp add: Split.simps [of "a @ c # b"] Index_single_append)

lemma Split_nonempty: "Split s [c] \<noteq> []"
  by (simp add: Split.simps [of s] Let_def)

text \<open>A text that \<^verbatim>\<open>ParseInt\<close> accepts is made of a sign and digits.\<close>

lemma parseDigits_chars:
  "parseDigits b s n = Some m \<Longrightarrow> \<forall>c\<in>set s. digitVal c \<noteq> None"
  by (induction s arbitrary: n) (auto split: option.splits if_splits)

lemma ParseInt_digits:
  assumes "ParseInt s b w = Some n"
  obtains c cs un where "s = c # cs"
    and "parseDigits b (if c = CHR ''+'' \<or> c = CHR ''-'' then cs else s) 0 = Some un"
proof (cases s)
  case Nil
  with assms show ?thesis by (simp add: ParseInt_def)
next
  case (Cons c cs)
  let ?ds = "if c = CHR ''+'' \<or> c = CHR ''-'' then cs else c # cs"
  have "parseDigits b ?ds 0 \<noteq> None"
  proof
    assume "parseDigits b ?ds 0 = None"
    then have "ParseInt (c # cs) b w = None"
      by (simp add: ParseInt_def Let_def)
    with assms Cons show False by simp
  qed
  with Cons that show ?thesis by auto
qed

lemma ParseInt_chars:
  assumes "ParseInt s b w = Some n"
  shows "s \<noteq> [] \<and> (\<forall>c\<in>set s. c = CHR ''+'' \<or> c = CHR ''-'' \<or> digitVal c \<noteq> None)"
proof -
  from assms obtain c cs un where s: "s = c # cs"
    and d: "parseDigits b (if c = CHR ''+'' \<or> c = CHR ''-'' then cs else s) 0 = Some un"
    by (rule ParseInt_digits)
  from parseDigits_chars [OF d] s show ?thesis
    by (auto split: if_splits)
qed

lemma digitVal_punct:
  "digitVal CHR '' '' = None" "digitVal CHR '':'' = None" "digitVal CHR ''['' = None"
  "digitVal CHR '','' = None"
  by (simp_all add: digitVal_def)

lemma ParseInt_no_punct:
  assumes "ParseInt s b w = Some n"
  shows "CHR '' '' \<notin> set s \<and> CHR '':'' \<notin> set s \<and> CHR ''['' \<notin> set s \<and> CHR '','' \<notin> set s"
proof -
  have "c \<notin> set s" if "digitVal c = None" "c \<noteq> CHR ''+''" "c \<noteq> CHR ''-''" for c
    using ParseInt_chars [OF assms] that by blast
  then show ?thesis by (simp add: digitVal_punct)
qed

lemma ParseInt_nonempty: "ParseInt s b w = Some n \<Longrightarrow> s \<noteq> []"
  using ParseInt_chars by blast

lemma LastIndex_append_notin: "c \<notin> set b \<Longrightarrow> LastIndex (a @ b) [c] = LastIndex a [c]"
  by (induction a) (auto simp: LastIndex_single_notin Let_def)

lemma LastIndex_less: "LastIndex a [c] < int (length a)"
  by (induction a) (auto simp: Let_def)

lemma slice_tail: "slice (a @ b) (int (length a)) (int (length a + length b)) = Done b"
  by (simp add: slice_def)

lemma slice_mid: "slice (a @ b @ c) (int (length a)) (int (length a + length b)) = Done b"
  by (simp add: slice_def)

section \<open>Position lines\<close>

lemma stackPos_plain:
  assumes t: "TrimSpace l = file @ '':'' @ ln" and n: "ParseInt ln 10 32 = Some n"
  shows "stackPos l = Done (Inr (file, n, None))"
proof -
  from ParseInt_no_punct [OF n] have c: "CHR '':'' \<notin> set ln" and s: "CHR '' '' \<notin> set ln"
    by simp_all
  have colon: "LastIndex (file @ CHR '':'' # ln) '':'' = int (length file)"
    using c by (rule LastIndex_single_append)
  have "LastIndex (file @ CHR '':'' # ln) '' '' = LastIndex file '' ''"
    using s LastIndex_append_notin [of "CHR '' ''" "CHR '':'' # ln" "file"] by simp
  then have blank: "LastIndex (file @ CHR '':'' # ln) '' '' \<le> int (length file) + 1"
    using LastIndex_less [where a = "file" and c = "CHR '' ''"] by simp
  have s1: "slice (file @ CHR '':'' # ln) 0 (int (length file)) = Done file"
    by (simp add: slice_def)
  have s2: "slice ((file @ '':'') @ ln) (int (length (file @ '':'')))
      (int (length (file @ '':'') + length ln)) = Done ln"
    by (rule slice_tail)
  show ?thesis
    using s2 blank
    by (simp add: stackPos_def t colon s1 n Let_def add.commute add.left_commute)
qed

lemma stackPos_offset:
  assumes t: "TrimSpace l = file @ '':'' @ ln @ '' +0x'' @ hx"
    and n: "ParseInt ln 10 32 = Some n" and p: "ParseInt hx 16 64 = Some p"
  shows "stackPos l = Done (Inr (file, n, Some p))"
proof -
  let ?text = "file @ CHR '':'' # ln @ CHR '' '' # CHR ''+'' # CHR ''0'' # CHR ''x'' # hx"
  from ParseInt_no_punct [OF n] have c: "CHR '':'' \<notin> set ln" and s: "CHR '' '' \<notin> set ln"
    by simp_all
  from ParseInt_no_punct [OF p] have c': "CHR '':'' \<notin> set hx" and s': "CHR '' '' \<notin> set hx"
    by simp_all
  from ParseInt_nonempty [OF n] have ne: "ln \<noteq> []" .
  have colon: "LastIndex ?text '':'' = int (length file)"
    using c c' by (intro LastIndex_single_append) simp
  have blank: "LastIndex ?text '' '' = int (length file) + 1 + int (length ln)"
    using s' LastIndex_single_append [of "CHR '' ''" "''+0x'' @ hx" "file @ '':'' @ ln"]
    by simp
  have s1: "slice ?text 0 (int (length file)) = Done file"
    by (simp add: slice_def)
  have s2: "slice ((file @ '':'' @ ln @ '' +0x'') @ hx)
      (int (length (file @ '':'' @ ln @ '' +0x'')))
      (int (length (file @ '':'' @ ln @ '' +0x'') + length hx)) = Done hx"
    by (rule slice_tail)
  have s3: "slice ((file @ '':'') @ ln @ '' +0x'' @ hx) (int (length (file @ '':'')))
      (int (length (file @ '':'') + length ln)) = Done ln"
    by (rule slice_mid)
  show ?thesis
    using ne s2 s3
    by (simp add: stackPos_def t colon blank s1 n p Let_def add.commute add.left_commute)
qed

lemma parseStackPos_line:
  "parseStackPos \<lparr>pending = l # ls, failure = e\<rparr> =
     (case stackPos l of
        Panic \<Rightarrow> Panic
      | Done r \<Rightarrow> Done (r, \<lparr>pending = ls, failure = e\<rparr>))"
  by (simp add: parseStackPos_def Scan_def)

section \<open>Header lines\<close>

lemma Split_singleton: "Split s [c] = [x] \<Longrightarrow> x = s"
  using Split_nonempty [of "drop (nat (Index s [c]) + length [c]) s" c]
  by (simp add: Split.simps [of s] Let_def split: if_splits)

lemma parseHeader_parts:
  assumes sp: "Split header '' '' = ''goroutine'' # ids # rest" and rest: "rest \<noteq> []"
    and ids: "ParseInt ids 10 64 = Some n"
    and sl: "slice header (Index header ''['' + 1) (int (length header) - 2) = Done fullState"
    and st: "Split fullState '','' = status # parts"
  shows "parseHeader header =
     (case qualifiers parts 0 False of
        Panic \<Rightarrow> Panic
      | Done (Inl x) \<Rightarrow> Done (Inl x)
      | Done (Inr (w, k)) \<Rightarrow>
          Done (Inr \<lparr>ID = n, Status = status, WaitSinceMin = w, StackTrace = [],
            CratedBy = None, LockedToThread = k\<rparr>))"
proof (cases parts)
  case Nil
  with st have "status = fullState" by (auto dest: Split_singleton)
  with Nil rest show ?thesis
    by (simp add: parseHeader_def sp ids sl st Let_def)
next
  case (Cons p ps)
  with rest show ?thesis
    by (simp add: parseHeader_def sp ids sl st Let_def split: outcome.splits sum.splits)
qed

lemma Split_commas:
  "CHR '','' \<notin> set a \<Longrightarrow> \<forall>q\<in>set qs. CHR '','' \<notin> set q \<Longrightarrow>
   Split (a @ qualifier_text qs) '','' = a # map ((#) CHR '' '') qs"
proof (induction qs arbitrary: a)
  case Nil
  then show ?case by (simp add: Split_notin)
next
  case (Cons q qs)
  have "Split (a @ CHR '','' # ((CHR '' '' # q) @ qualifier_text qs)) '',''
      = a # Split ((CHR '' '' # q) @ qualifier_text qs) '',''"
    using Cons.prems(1) by (rule Split_append)
  also have "Split ((CHR '' '' # q) @ qualifier_text qs) '',''
      = (CHR '' '' # q) # map ((#) CHR '' '') qs"
    using Cons.prems(2) by (intro Cons.IH) auto
  finally show ?case by simp
qed

lemma parseHeader_header_line:
  assumes ids: "ParseInt ids 10 64 = Some n" and st: "CHR '','' \<notin> set status"
    and qs: "\<forall>q\<in>set quals. CHR '','' \<notin> set q"
  shows "parseHeader (header_line ids status quals) =
     (case qualifiers (map ((#) CHR '' '') quals) 0 False of
        Panic \<Rightarrow> Panic
      | Done (Inl x) \<Rightarrow> Done (Inl x)
      | Done (Inr (w, k)) \<Rightarrow>
          Done (Inr \<lparr>ID = n, Status = status, WaitSinceMin = w, StackTrace = [],
            CratedBy = None, LockedToThread = k\<rparr>))"
proof -
  let ?Q = "qualifier_text quals"
  let ?rest = "''['' @ status @ ?Q @ '']:''"
  let ?pre = "''goroutine '' @ ids @ '' ''"
  from ParseInt_no_punct [OF ids]
  have b: "CHR '' '' \<notin> set ids" and k: "CHR ''['' \<notin> set ids" by simp_all
  have h1: "header_line ids status quals = ''goroutine'' @ CHR '' '' # (ids @ CHR '' '' # ?rest)"
    by (simp add: header_line_def)
  have "Split (''goroutine'' @ CHR '' '' # (ids @ CHR '' '' # ?rest)) '' ''
      = ''goroutine'' # Split (ids @ CHR '' '' # ?rest) '' ''"
    by (rule Split_append) simp
  also have "Split (ids @ CHR '' '' # ?rest) '' '' = ids # Split ?rest '' ''"
    using b by (rule Split_append)
  finally have sp: "Split (header_line ids status quals) '' ''
      = ''goroutine'' # ids # Split ?rest '' ''"
    unfolding h1 .
  have h2: "header_line ids status quals = ?pre @ CHR ''['' # (status @ ?Q @ '']:'')"
    by (simp add: header_line_def)
  have ix: "Index (header_line ids status quals) ''['' = int (length ?pre)"
    unfolding h2 using k by (intro Index_single_append) simp
  have h3: "header_line ids status quals = (?pre @ ''['') @ (status @ ?Q) @ '']:''"
    by (simp add: header_line_def)
  have e1: "Index (header_line ids status quals) ''['' + 1 = int (length (?pre @ ''[''))"
    unfolding ix by simp
  have e2: "int (length (header_line ids status quals)) - 2
      = int (length (?pre @ ''['') + length (status @ ?Q))"
    unfolding h3 by simp
  have sl: "slice (header_line ids status quals)
      (Index (header_line ids status quals) ''['' + 1)
      (int (length (header_line ids status quals)) - 2) = Done (status @ ?Q)"
    unfolding e1 e2 unfolding h3 by (rule slice_mid)
  have sq: "Split (status @ ?Q) '','' = status # map ((#) CHR '' '') quals"
    using st qs by (rule Split_commas)
  show ?thesis
    using sp Split_nonempty ids sl sq by (rule parseHeader_parts)
qed

lemma Trim_blank: "Trim (CHR '' '' # q) '' '' = Trim q '' ''"
  by (simp add: Trim_def)

lemma qualifier_blank [simp]:
  "ends_in_minutes (CHR '' '' # q) = ends_in_minutes q"
  "locked_qualifier (CHR '' '' # q) = locked_qualifier q"
  "minutes_qualifier (CHR '' '' # q) = minutes_qualifier q"
  using Trim_blank [of q]
  by (simp_all add: ends_in_minutes_def locked_qualifier_def minutes_qualifier_def fun_eq_iff)

lemma locked_not_minutes: "locked_qualifier p \<Longrightarrow> \<not> ends_in_minutes p"
proof -
  have "\<not> HasSuffix ''locked to thread'' ''minutes''" by code_simp
  then show "locked_qualifier p \<Longrightarrow> \<not> ends_in_minutes p"
    by (simp add: locked_qualifier_def ends_in_minutes_def)
qed

lemma qualifiers_ignore:
  "\<not> ends_in_minutes p \<Longrightarrow> \<not> locked_qualifier p \<Longrightarrow>
   qualifiers (p # ps) w k = qualifiers ps w k"
  by (simp add: ends_in_minutes_def locked_qualifier_def)

lemma qualifiers_locked:
  "locked_qualifier p \<Longrightarrow> qualifiers (p # ps) w k = qualifiers ps w True"
  using locked_not_minutes [of p]
  by (simp add: ends_in_minutes_def locked_qualifier_def)

lemma qualifiers_minutes:
  assumes "minutes_qualifier p n"
  shows "qualifiers (p # ps) w k = qualifiers ps n k"
proof -
  from assms obtain ds where t: "Trim p '' '' = ds @ '' minutes''"
    and n: "ParseInt ds 10 64 = Some n"
    by (auto simp: minutes_qualifier_def)
  from ParseInt_no_punct [OF n] have b: "CHR '' '' \<notin> set ds" by simp
  have sf: "HasSuffix (ds @ '' minutes'') ''minutes''"
    unfolding HasSuffix_def by (rule suffixI [of _ "ds @ '' ''"]) simp
  have ix: "Index (ds @ CHR '' '' # ''minutes'') '' '' = int (length ds)"
    using b by (rule Index_single_append)
  have sl: "slice (ds @ CHR '' '' # ''minutes'') 0 (int (length ds)) = Done ds"
    by (simp add: slice_def)
  from sf have sf': "HasSuffix (ds @ CHR '' '' # ''minutes'') ''minutes''" by simp
  show ?thesis
    by (simp add: t sf' ix sl n Let_def)
qed

declare qualifiers.simps(2) [simp del]

lemma qualifiers_no_minutes:
  "\<forall>p\<in>set ps. \<not> ends_in_minutes p \<Longrightarrow>
   qualifiers ps w k = Done (Inr (w, k \<or> (\<exists>p\<in>set ps. locked_qualifier p)))"
proof (induction ps arbitrary: k)
  case Nil
  then show ?case by simp
next
  case (Cons p ps)
  show ?case
  proof (cases "locked_qualifier p")
    case True
    with Cons show ?thesis by (simp add: qualifiers_locked)
  next
    case False
    with Cons show ?thesis by (simp add: qualifiers_ignore)
  qed
qed

lemma qualifiers_recognized:
  "\<forall>p\<in>set ps. \<not> ends_in_minutes p \<or> (\<exists>n. minutes_qualifier p n) \<Longrightarrow>
   \<exists>w'. qualifiers ps w k = Done (Inr (w', k \<or> (\<exists>p\<in>set ps. locked_qualifier p)))"
proof (induction ps arbitrary: w k)
  case Nil
  then show ?case by simp
next
  case (Cons p ps)
  then have rest: "\<forall>p\<in>set ps. \<not> ends_in_minutes p \<or> (\<exists>n. minutes_qualifier p n)"
    by simp
  show ?case
  proof (cases "ends_in_minutes p")
    case True
    with Cons.prems obtain n where n: "minutes_qualifier p n" by auto
    from True have "\<not> locked_qualifier p" using locked_not_minutes by blast
    with Cons.IH [OF rest, of n k] n show ?thesis
      by (simp add: qualifiers_minutes)
  next
    case False
    show ?thesis
    proof (cases "locked_qualifier p")
      case True
      with Cons.IH [OF rest, of w True] show ?thesis by (simp add: qualifiers_locked)
    next
      case nl: False
      with False Cons.IH [OF rest, of w k] show ?thesis by (simp add: qualifiers_ignore)
    qed
  qed
qed

lemma qualifiers_append:
  "qualifiers (ps @ qs) w k =
     (case qualifiers ps w k of
        Panic \<Rightarrow> Panic
      | Done (Inl x) \<Rightarrow> Done (Inl x)
      | Done (Inr (w', k')) \<Rightarrow> qualifiers qs w' k')"
  by (induction ps arbitrary: w k)
    (auto simp: qualifiers.simps(2) Let_def split: outcome.splits option.splits)

lemma Trim_id:
  assumes "s \<noteq> []" "hd s \<noteq> CHR '' ''" "last s \<noteq> CHR '' ''"
  shows "Trim s '' '' = s"
proof -
  from assms(1,2) have a: "dropWhile (\<lambda>c. c \<in> set '' '') s = s"
    by (cases s) auto
  from assms(1,3) have "dropWhile (\<lambda>c. c \<in> set '' '') (rev s) = rev s"
    by (cases "rev s") (auto simp: last_rev [symmetric] simp del: last_rev)
  with a show ?thesis by (simp add: Trim_def)
qed

lemma minutes_qualifier_text:
  assumes "ParseInt ds 10 64 = Some w"
  shows "minutes_qualifier (ds @ '' minutes'') w"
proof -
  from ParseInt_no_punct [OF assms] ParseInt_nonempty [OF assms]
  have "ds \<noteq> []" "hd ds \<noteq> CHR '' ''" by (auto dest: hd_in_set)
  then have "Trim (ds @ '' minutes'') '' '' = ds @ '' minutes''"
    by (intro Trim_id) auto
  with assms show ?thesis by (auto simp: minutes_qualifier_def)
qed

lemma locked_qualifier_text: "locked_qualifier ''locked to thread''"
  unfolding locked_qualifier_def by (rule Trim_id) simp_all

lemma parseHeader_runtime_header:
  assumes ids: "ParseInt ids 10 64 = Some n" and st: "CHR '','' \<notin> set status"
    and w: "case mins of None \<Rightarrow> w = 0 | Some ds \<Rightarrow> ParseInt ds 10 64 = Some w"
  shows "parseHeader (runtime_header ids status mins locked) =
     Done (Inr \<lparr>ID = n, Status = status, WaitSinceMin = w, StackTrace = [],
       CratedBy = None, LockedToThread = locked\<rparr>)"
proof -
  let ?ms = "case mins of None \<Rightarrow> [] | Some ds \<Rightarrow> [ds @ '' minutes'']"
  let ?ls = "if locked then [''locked to thread''] else []"
  have c: "\<forall>q\<in>set (?ms @ ?ls). CHR '','' \<notin> set q"
    using w by (auto split: option.splits dest: ParseInt_no_punct)
  have l: "qualifiers (map ((#) CHR '' '') ?ls) w' False = Done (Inr (w', locked))" for w'
    using locked_qualifier_text by (simp add: qualifiers_locked)
  have "qualifiers (map ((#) CHR '' '') (?ms @ ?ls)) 0 False = Done (Inr (w, locked))"
  proof (cases mins)
    case None
    with w l [of 0] show ?thesis by simp
  next
    case (Some ds)
    with w have "minutes_qualifier (ds @ '' minutes'') w"
      by (simp add: minutes_qualifier_text)
    then have "minutes_qualifier (CHR '' '' # ds @ '' minutes'') w" by simp
    with Some l [of w] show ?thesis
      by (simp add: qualifiers_minutes del: qualifier_blank)
  qed
  then show ?thesis
    unfolding runtime_header_def by (simp add: parseHeader_header_line [OF ids st c])
qed

section \<open>Blocks\<close>

lemma entry_lines_simps [simp]:
  "entry_lines [] = []"
  "entry_lines (en # es) = fst en # snd en # entry_lines es"
  by (simp_all add: entry_lines_def)

lemma trace_of_simps:
  "trace_of [] = []"
  "trace_of (en # es) =
     (if created_by en then trace_of es
      else (case frame_of en of None \<Rightarrow> trace_of es | Some fr \<Rightarrow> fr # trace_of es))"
  by (simp_all add: trace_of_def split: option.splits)

lemma creator_of_simps:
  "creator_of [] = None"
  "creator_of (en # es) =
     (if created_by en
      then (case frame_of en of
              None \<Rightarrow> creator_of es
            | Some fr \<Rightarrow> (case creator_of es of None \<Rightarrow> Some fr | Some c \<Rightarrow> Some c))
      else creator_of es)"
  by (simp_all add: creator_of_def Let_def split: option.splits)

lemma frames_entries:
  assumes "\<forall>en\<in>set es. fst en \<noteq> [] \<and> stackPos (snd en) \<noteq> Panic"
  shows "frames r \<lparr>pending = entry_lines es @ rest, failure = e\<rparr> =
     frames (r\<lparr>StackTrace := StackTrace r @ trace_of es,
                CratedBy := (case creator_of es of None \<Rightarrow> CratedBy r | Some c \<Rightarrow> Some c)\<rparr>)
       \<lparr>pending = rest, failure = e\<rparr>"
  using assms
proof (induction es arbitrary: r)
  case Nil
  show ?case by (simp add: trace_of_simps creator_of_simps)
next
  case (Cons en es)
  from Cons.prems have f: "fst en \<noteq> []" and p: "stackPos (snd en) \<noteq> Panic"
    and rest: "\<forall>en\<in>set es. fst en \<noteq> [] \<and> stackPos (snd en) \<noteq> Panic"
    by simp_all
  note IH = Cons.IH [OF rest]
  from p obtain res where res: "stackPos (snd en) = Done res" by (cases "stackPos (snd en)") auto
  show ?case
  proof (cases res)
    case (Inl x)
    with res have "frame_of en = None" by (simp add: frame_of_def)
    with res Inl f IH [of r] show ?thesis
      by (simp add: frames_entry trace_of_simps creator_of_simps)
  next
    case (Inr v)
    obtain fl ln ps where v: "v = (fl, ln, ps)" by (cases v)
    show ?thesis
    proof (cases "created_by en")
      case True
      let ?fr = "\<lparr>FuncName = drop 11 (fst en), File = fl, Line = ln, Position = ps\<rparr>"
      from res Inr v True have fo: "frame_of en = Some ?fr" by (simp add: frame_of_def)
      from True have hp: "HasPrefix (fst en) ''created by ''" by (simp add: created_by_def)
      show ?thesis
        using IH [of "r\<lparr>CratedBy := Some ?fr\<rparr>"] f
        by (simp add: frames_entry res Inr v hp trace_of_simps creator_of_simps True fo
              split: option.splits cong: option.case_cong)
    next
      case False
      let ?fr = "\<lparr>FuncName = fst en, File = fl, Line = ln, Position = ps\<rparr>"
      from res Inr v False have fo: "frame_of en = Some ?fr" by (simp add: frame_of_def)
      from False have hp: "\<not> HasPrefix (fst en) ''created by ''" by (simp add: created_by_def)
      show ?thesis
        using IH [of "r\<lparr>StackTrace := StackTrace r @ [?fr]\<rparr>"] f
        by (simp add: frames_entry res Inr v hp trace_of_simps creator_of_simps False fo
              cong: option.case_cong)
    qed
  qed
qed

lemma parseHeader_malformed:
  "malformed_header l \<Longrightarrow> \<exists>x. parseHeader l = Done (Inl x)"
  by (auto simp: malformed_header_def parseHeader_def Let_def)

lemma parseHeader_fresh:
  "parseHeader l = Done (Inr r) \<Longrightarrow> StackTrace r = [] \<and> CratedBy r = None"
  by (auto simp: parseHeader_def Let_def split: if_splits option.splits outcome.splits sum.splits)

lemma headers_skip:
  "malformed_header l \<Longrightarrow>
   headers rs \<lparr>pending = l # ls, failure = e\<rparr> = headers rs \<lparr>pending = ls, failure = e\<rparr>"
  using parseHeader_malformed [of l] by (auto simp: headers_line)

lemma headers_skip_all:
  "\<forall>l\<in>set ls. malformed_header l \<Longrightarrow>
   headers rs \<lparr>pending = ls @ rest, failure = e\<rparr> = headers rs \<lparr>pending = rest, failure = e\<rparr>"
  by (induction ls) (simp_all add: headers_skip)

lemma malformed_blank: "malformed_header []"
  by (simp add: malformed_header_def Split.simps)

lemma frames_block:
  assumes "\<forall>en\<in>set es. fst en \<noteq> [] \<and> stackPos (snd en) \<noteq> Panic"
  shows "frames r \<lparr>pending = entry_lines es @ [] # rest, failure = e\<rparr> =
     Done (r\<lparr>StackTrace := StackTrace r @ trace_of es,
              CratedBy := (case creator_of es of None \<Rightarrow> CratedBy r | Some c \<Rightarrow> Some c)\<rparr>,
           \<lparr>pending = rest, failure = e\<rparr>)"
    and "frames r \<lparr>pending = entry_lines es, failure = e\<rparr> =
     Done (r\<lparr>StackTrace := StackTrace r @ trace_of es,
              CratedBy := (case creator_of es of None \<Rightarrow> CratedBy r | Some c \<Rightarrow> Some c)\<rparr>,
           \<lparr>pending = [], failure = e\<rparr>)"
  using frames_entries [OF assms, of r "[] # rest" e] frames_entries [OF assms, of r "[]" e]
  by (simp_all add: frames_blank frames_end)

lemma header_parses_iff: "header_parses l = (\<exists>r. parseHeader l = Done (Inr r))"
  by (auto simp: header_parses_def split: outcome.splits sum.splits)

lemma well_formed_entries:
  "well_formed b \<Longrightarrow> \<forall>en\<in>set (entries b). fst en \<noteq> [] \<and> stackPos (snd en) \<noteq> Panic"
  by (auto simp: well_formed_def frame_of_def)

lemma headers_well_formed:
  assumes "well_formed b"
  shows "headers rs \<lparr>pending = block_lines b @ rest, failure = e\<rparr> =
     headers (rs @ List.map_filter record_of [b]) \<lparr>pending = rest, failure = e\<rparr>"
proof -
  from assms obtain r where r: "parseHeader (head_line b) = Done (Inr r)"
    by (auto simp: well_formed_def header_parses_iff)
  from parseHeader_fresh [OF r] have fresh: "StackTrace r = []" "CratedBy r = None"
    by simp_all
  have rec: "record_of b
      = Some (r\<lparr>StackTrace := trace_of (entries b), CratedBy := creator_of (entries b)\<rparr>)"
    by (simp add: record_of_def r)
  have "frames (r\<lparr>StackTrace := []\<rparr>)
      \<lparr>pending = entry_lines (entries b) @ [] # rest, failure = e\<rparr>
    = Done (r\<lparr>StackTrace := trace_of (entries b), CratedBy := creator_of (entries b)\<rparr>,
        \<lparr>pending = rest, failure = e\<rparr>)"
    using fresh
    by (simp add: frames_block(1) [OF well_formed_entries [OF assms]] split: option.splits)
  then show ?thesis
    by (simp add: block_lines_def headers_line r rec map_filter_simps)
qed

lemma headers_malformed:
  assumes "malformed_block b"
  shows "headers rs \<lparr>pending = block_lines b @ rest, failure = e\<rparr> =
     headers (rs @ List.map_filter record_of [b]) \<lparr>pending = rest, failure = e\<rparr>"
proof -
  from assms have "\<forall>l\<in>set (block_lines b). malformed_header l"
    by (auto simp: malformed_block_def block_lines_def entry_lines_def malformed_blank)
  then have skip: "headers rs \<lparr>pending = block_lines b @ rest, failure = e\<rparr>
      = headers rs \<lparr>pending = rest, failure = e\<rparr>"
    by (rule headers_skip_all)
  from assms parseHeader_malformed [of "head_line b"] have "record_of b = None"
    by (auto simp: malformed_block_def record_of_def)
  with skip show ?thesis by (simp add: map_filter_simps)
qed

lemma headers_blocks:
  assumes "\<forall>b\<in>set bs. well_formed b \<or> malformed_block b"
  shows "headers rs \<lparr>pending = concat (map block_lines bs) @ rest, failure = e\<rparr> =
     headers (rs @ List.map_filter record_of bs) \<lparr>pending = rest, failure = e\<rparr>"
  using assms
proof (induction bs arbitrary: rs)
  case Nil
  show ?case by (simp add: map_filter_simps)
next
  case (Cons b bs)
  then have rest: "\<forall>b\<in>set bs. well_formed b \<or> malformed_block b"
    and b: "well_formed b \<or> malformed_block b" by simp_all
  from b have "headers rs \<lparr>pending = block_lines b @ (concat (map block_lines bs) @ rest),
        failure = e\<rparr>
      = headers (rs @ List.map_filter record_of [b])
          \<lparr>pending = concat (map block_lines bs) @ rest, failure = e\<rparr>"
    using headers_well_formed headers_malformed by blast
  also have "\<dots> = headers ((rs @ List.map_filter record_of [b]) @ List.map_filter record_of bs)
      \<lparr>pending = rest, failure = e\<rparr>"
    by (rule Cons.IH [OF rest])
  finally show ?case
    by (simp add: map_filter_simps split: option.splits)
qed

lemma frames_failure:
  "frames r \<lparr>pending = ls, failure = e\<rparr> =
     (case frames r \<lparr>pending = ls, failure = e'\<rparr> of
        Panic \<Rightarrow> Panic
      | Done (r', sc) \<Rightarrow> Done (r', sc\<lparr>failure := e\<rparr>))"
proof (induction ls arbitrary: r rule: induct_list012)
  case 1
  show ?case by (simp add: frames_end)
next
  case (2 x)
  show ?case by (cases "x = []") (simp_all add: frames_blank frames_last)
next
  case (3 x y zs)
  show ?case
  proof (cases "x = []")
    case True
    then show ?thesis by (simp add: frames_blank)
  next
    case False
    then show ?thesis
      by (simp add: frames_entry "3.IH"(1) split: outcome.splits sum.splits prod.splits)
  qed
qed

lemma headers_failure:
  "headers rs \<lparr>pending = ls, failure = e\<rparr> =
     (case headers rs \<lparr>pending = ls, failure = e'\<rparr> of
        Panic \<Rightarrow> Panic
      | Done (rs', sc) \<Rightarrow> Done (rs', sc\<lparr>failure := e\<rparr>))"
proof (induction "length ls" arbitrary: rs ls rule: less_induct)
  case less
  show ?case
  proof (cases ls)
    case Nil
    then show ?thesis by (simp add: headers_end)
  next
    case (Cons l ls')
    show ?thesis
    proof (cases "parseHeader l")
      case Panic
      with Cons show ?thesis by (simp add: headers_line)
    next
      case (Done res)
      show ?thesis
      proof (cases res)
        case (Inl x)
        with Done Cons less [of ls' rs] show ?thesis by (simp add: headers_line)
      next
        case (Inr r)
        let ?r0 = "r\<lparr>StackTrace := []\<rparr>"
        show ?thesis
        proof (cases "frames ?r0 \<lparr>pending = ls', failure = e'\<rparr>")
          case p: Panic
          with Done Inr Cons frames_failure [of ?r0 ls' e e'] show ?thesis
            by (simp add: headers_line)
        next
          case d: (Done v)
          obtain r' sc where v: "v = (r', sc)" by (cases v)
          from d v frames_pending have len: "length (pending sc) \<le> length ls'"
            by fastforce
          from d v frames_failure [of ?r0 ls' e' e'] have "sc\<lparr>failure := e'\<rparr> = sc"
            by simp
          then have sc: "sc = \<lparr>pending = pending sc, failure = e'\<rparr>"
            by (cases sc) simp
          from d v frames_failure [of ?r0 ls' e e']
          have fe: "frames ?r0 \<lparr>pending = ls', failure = e\<rparr>
              = Done (r', \<lparr>pending = pending sc, failure = e\<rparr>)"
            by (cases sc) simp
          from len Cons have "length (pending sc) < length ls" by simp
          from less [OF this, of "rs @ [r']"] sc
          have "headers (rs @ [r']) \<lparr>pending = pending sc, failure = e\<rparr> =
              (case headers (rs @ [r']) sc of
                 Panic \<Rightarrow> Panic
               | Done (rs', sc') \<Rightarrow> Done (rs', sc'\<lparr>failure := e\<rparr>))"
            by simp
          with Done Inr Cons d v fe show ?thesis
            by (simp add: headers_line)
        qed
      qed
    qed
  qed
qed

section \<open>Position of a frame\<close>

text \<open>
  Claim C7: a position line \<^verbatim>\<open><file>:<line>\<close> without the suffix \<^verbatim>\<open> +0x<hex>\<close> gives a
  frame position that is absent; a position line \<^verbatim>\<open><file>:<line> +0x<hex>\<close> gives one
  that is present and equal to the number that the hexadecimal digits denote. The file
  is cut at the rightmost colon, so \<open>fileName\<close> is any text, colons and blanks included.
  Here \<open>l\<close> is the line as read, \<^verbatim>\<open><file>:<line>...\<close> once the white space around it is
  trimmed, \<open>ln\<close> a decimal numeral of 32 bits and \<open>hx\<close> a hexadecimal numeral of 64 bits,
  read by \<^verbatim>\<open>strconv.ParseInt\<close>.
\<close>

theorem parseStackPos_position:
  assumes "ParseInt ln 10 32 = Some n"
  shows "(TrimSpace l = fileName @ '':'' @ ln \<longrightarrow>
            parseStackPos \<lparr>pending = l # ls, failure = e\<rparr>
              = Done (Inr (fileName, n, None), \<lparr>pending = ls, failure = e\<rparr>)) \<and>
         (TrimSpace l = fileName @ '':'' @ ln @ '' +0x'' @ hx \<and> ParseInt hx 16 64 = Some p \<longrightarrow>
            parseStackPos \<lparr>pending = l # ls, failure = e\<rparr>
              = Done (Inr (fileName, n, Some p), \<lparr>pending = ls, failure = e\<rparr>))"
  using assms by (simp add: parseStackPos_line stackPos_plain stackPos_offset)

theorem parseStackPos_position_witness:
  "ParseInt ''2969'' 10 32 = Some 2969 \<and>
   TrimSpace (CHR 0x09 # ''C:/go/src/net/http/server.go:2969'')
     = ''C:/go/src/net/http/server.go'' @ '':'' @ ''2969'' \<and>
   parseStackPos
       \<lparr>pending = [CHR 0x09 # ''C:/go/src/net/http/server.go:2969''], failure = None\<rparr>
     = Done (Inr (''C:/go/src/net/http/server.go'', 2969, None),
         \<lparr>pending = [], failure = None\<rparr>) \<and>
   TrimSpace (CHR 0x09 # ''C:/go/src/net/http/server.go:2969 +0x970'')
     = ''C:/go/src/net/http/server.go'' @ '':'' @ ''2969'' @ '' +0x'' @ ''970'' \<and>
   ParseInt ''970'' 16 64 = Some 0x970 \<and>
   parseStackPos
       \<lparr>pending = [CHR 0x09 # ''C:/go/src/net/http/server.go:2969 +0x970''],
        failure = None\<rparr>
     = Done (Inr (''C:/go/src/net/http/server.go'', 2969, Some 0x970),
         \<lparr>pending = [], failure = None\<rparr>)"
proof -
  have n: "ParseInt ''2969'' 10 32 = Some 2969"
    by code_simp
  have p: "ParseInt ''970'' 16 64 = Some 0x970"
    by code_simp
  have t1: "TrimSpace (CHR 0x09 # ''C:/go/src/net/http/server.go:2969'')
     = ''C:/go/src/net/http/server.go'' @ '':'' @ ''2969''"
    by code_simp
  have t2: "TrimSpace (CHR 0x09 # ''C:/go/src/net/http/server.go:2969 +0x970'')
     = ''C:/go/src/net/http/server.go'' @ '':'' @ ''2969'' @ '' +0x'' @ ''970''"
    by code_simp
  from parseStackPos_position [OF n, where l = "CHR 0x09 # ''C:/go/src/net/http/server.go:2969''"
      and fileName = "''C:/go/src/net/http/server.go''" and ls = "[]" and e = None] t1
  have a: "parseStackPos
       \<lparr>pending = [CHR 0x09 # ''C:/go/src/net/http/server.go:2969''], failure = None\<rparr>
     = Done (Inr (''C:/go/src/net/http/server.go'', 2969, None),
         \<lparr>pending = [], failure = None\<rparr>)"
    by blast
  from parseStackPos_position [OF n,
      where l = "CHR 0x09 # ''C:/go/src/net/http/server.go:2969 +0x970''"
      and fileName = "''C:/go/src/net/http/server.go''" and hx = "''970''" and p = "0x970"
      and ls = "[]" and e = None] t2 p
  have b: "parseStackPos
       \<lparr>pending = [CHR 0x09 # ''C:/go/src/net/http/server.go:2969 +0x970''],
        failure = None\<rparr>
     = Done (Inr (''C:/go/src/net/http/server.go'', 2969, Some 0x970),
         \<lparr>pending = [], failure = None\<rparr>)"
    by blast
  from n p t1 t2 a b show ?thesis
    by blast
qed

section \<open>Qualifiers of a header\<close>

text \<open>
  Claim C2, as the spec states it: a qualifier that is neither an integer followed by
  \<^verbatim>\<open>minutes\<close> nor the text \<^verbatim>\<open>locked to thread\<close> is ignored and never an error. The code
  tests a qualifier for the suffix \<^verbatim>\<open>minutes\<close> first and then insists on an integer
  before its first blank: the qualifier \<^verbatim>\<open>many minutes\<close> is in neither shape, and it
  makes \<^verbatim>\<open>parseHeader\<close> return the error "Failed to parse minutes".
\<close>

theorem minutes_without_integer_is_an_error:
  "parseHeader ''goroutine 1 [select, many minutes]:'' = Done (Inl ErrParseMinutes) \<and>
   ParseInt ''many'' 10 64 = None \<and>
   \<not> locked_qualifier ''many minutes''"
proof -
  have "parseHeader ''goroutine 1 [select, many minutes]:'' = Done (Inl ErrParseMinutes)"
    by code_simp
  moreover have "ParseInt ''many'' 10 64 = None"
    by code_simp
  moreover have "Trim ''many minutes'' '' '' \<noteq> ''locked to thread''"
    by code_simp
  ultimately show ?thesis
    by (simp add: locked_qualifier_def)
qed

text \<open>
  Claim C2, amended: a qualifier that neither ends in \<^verbatim>\<open>minutes\<close> nor is the text
  \<^verbatim>\<open>locked to thread\<close> (blanks around it trimmed) is ignored: \<^verbatim>\<open>parseHeader\<close> returns for
  the header what it returns for the header without that qualifier, and a header with
  that qualifier alone yields its record, with no wait and no thread lock. The header
  is \<^verbatim>\<open>goroutine <id> [<status>, <qualifier>, ...]:\<close> with an integer id and no comma
  inside the status or a qualifier.
\<close>

theorem unrecognized_qualifier_ignored:
  assumes "ParseInt ids 10 64 = Some n" and "CHR '','' \<notin> set status"
    and "\<forall>x\<in>set (ps @ q # qs). CHR '','' \<notin> set x"
    and "\<not> ends_in_minutes q" and "\<not> locked_qualifier q"
  shows "parseHeader (header_line ids status (ps @ q # qs))
           = parseHeader (header_line ids status (ps @ qs)) \<and>
         parseHeader (header_line ids status [q])
           = Done (Inr \<lparr>ID = n, Status = status, WaitSinceMin = 0, StackTrace = [],
               CratedBy = None, LockedToThread = False\<rparr>)"
proof -
  let ?b = "(#) CHR '' ''"
  from assms(3) have c1: "\<forall>x\<in>set (ps @ q # qs). CHR '','' \<notin> set x"
    and c2: "\<forall>x\<in>set (ps @ qs). CHR '','' \<notin> set x" and c3: "\<forall>x\<in>set [q]. CHR '','' \<notin> set x"
    by auto
  have step: "qualifiers (?b q # map ?b qs) w k = qualifiers (map ?b qs) w k" for w k
    using assms(4,5) by (simp add: qualifiers_ignore)
  have "qualifiers (map ?b (ps @ q # qs)) 0 False = qualifiers (map ?b (ps @ qs)) 0 False"
    by (simp add: qualifiers_append step split: outcome.splits sum.splits prod.splits)
  then have first: "parseHeader (header_line ids status (ps @ q # qs))
      = parseHeader (header_line ids status (ps @ qs))"
    by (simp only: parseHeader_header_line [OF assms(1,2) c1]
          parseHeader_header_line [OF assms(1,2) c2])
  have "qualifiers (map ?b [q]) 0 False = Done (Inr (0, False))"
    using assms(4,5) by (simp add: qualifiers_ignore)
  then have second: "parseHeader (header_line ids status [q])
      = Done (Inr \<lparr>ID = n, Status = status, WaitSinceMin = 0, StackTrace = [],
          CratedBy = None, LockedToThread = False\<rparr>)"
    by (simp add: parseHeader_header_line [OF assms(1,2) c3])
  from first second show ?thesis ..
qed

theorem unrecognized_qualifier_ignored_witness:
  "ParseInt ''1'' 10 64 = Some 1 \<and>
   \<not> ends_in_minutes ''durable'' \<and> \<not> locked_qualifier ''durable'' \<and>
   parseHeader ''goroutine 1 [select, 5 minutes, durable, locked to thread]:''
     = parseHeader ''goroutine 1 [select, 5 minutes, locked to thread]:'' \<and>
   parseHeader ''goroutine 1 [select, durable]:''
     = Done (Inr \<lparr>ID = 1, Status = ''select'', WaitSinceMin = 0, StackTrace = [],
         CratedBy = None, LockedToThread = False\<rparr>)"
proof -
  have n: "ParseInt ''1'' 10 64 = Some 1"
    by code_simp
  have "\<not> HasSuffix (Trim ''durable'' '' '') ''minutes''"
    by code_simp
  then have m: "\<not> ends_in_minutes ''durable''"
    by (simp add: ends_in_minutes_def)
  have "Trim ''durable'' '' '' \<noteq> ''locked to thread''"
    by code_simp
  then have l: "\<not> locked_qualifier ''durable''"
    by (simp add: locked_qualifier_def)
  have s: "CHR '','' \<notin> set ''select''"
    by simp
  have c: "\<forall>x\<in>set ([''5 minutes''] @ ''durable'' # [''locked to thread'']). CHR '','' \<notin> set x"
    by simp
  from unrecognized_qualifier_ignored [OF n s c m l] n m l show ?thesis
    by (simp add: header_line_def)
qed

text \<open>
  Claim C5: a header with the qualifier \<^verbatim>\<open><N> minutes\<close> yields a record with
  \<^verbatim>\<open>WaitSinceMin = N\<close>, a header with the qualifier \<^verbatim>\<open>locked to thread\<close> yields one
  with \<^verbatim>\<open>LockedToThread = true\<close>, and both can stand in one header. Stated for a header
  \<^verbatim>\<open>goroutine <id> [<status>, <qualifier>, ...]:\<close> whose qualifiers each are of the shape
  \<^verbatim>\<open><N> minutes\<close> or do not end in \<^verbatim>\<open>minutes\<close> at all: the header parses, the record
  carries the id and the status, it is locked exactly when some qualifier is
  \<^verbatim>\<open>locked to thread\<close>, its wait is \<open>N\<close> for the qualifier \<^verbatim>\<open><N> minutes\<close> (the last one,
  should there be several) and \<open>0\<close> when there is none. The input of the spec's
  example yields the one record the spec gives.
\<close>

theorem recognized_qualifiers:
  assumes ids: "ParseInt ids 10 64 = Some n" and st: "CHR '','' \<notin> set status"
    and qs: "\<forall>q\<in>set quals. CHR '','' \<notin> set q
               \<and> (\<not> ends_in_minutes q \<or> (\<exists>m. minutes_qualifier q m))"
  shows "(\<exists>w. parseHeader (header_line ids status quals)
             = Done (Inr \<lparr>ID = n, Status = status, WaitSinceMin = w, StackTrace = [],
                 CratedBy = None,
                 LockedToThread = (\<exists>q\<in>set quals. locked_qualifier q)\<rparr>) \<and>
           (\<forall>ps q qs m. quals = ps @ q # qs \<and> minutes_qualifier q m
               \<and> (\<forall>x\<in>set qs. \<not> ends_in_minutes x) \<longrightarrow> w = m) \<and>
           ((\<forall>q\<in>set quals. \<not> ends_in_minutes q) \<longrightarrow> w = 0)) \<and>
         ParseStackFrame (textScanner
             ''goroutine 7 [chan receive, 3 minutes, locked to thread]:\<newline>\<newline>'')
           = Done ([\<lparr>ID = 7, Status = ''chan receive'', WaitSinceMin = 3, StackTrace = [],
                     CratedBy = None, LockedToThread = True\<rparr>], None)"
proof -
  let ?b = "(#) CHR '' ''"
  from qs have c: "\<forall>q\<in>set quals. CHR '','' \<notin> set q" by blast
  from qs have r: "\<forall>p\<in>set (map ?b quals). \<not> ends_in_minutes p \<or> (\<exists>m. minutes_qualifier p m)"
    by simp
  from qualifiers_recognized [OF r, of 0 False]
  obtain w where w: "qualifiers (map ?b quals) 0 False
      = Done (Inr (w, \<exists>q\<in>set quals. locked_qualifier q))"
    by auto
  have hdr: "parseHeader (header_line ids status quals)
      = Done (Inr \<lparr>ID = n, Status = status, WaitSinceMin = w, StackTrace = [],
          CratedBy = None, LockedToThread = (\<exists>q\<in>set quals. locked_qualifier q)\<rparr>)"
    by (simp add: parseHeader_header_line [OF ids st c] w)
  have last: "w = m"
    if "quals = ps @ q # qs" "minutes_qualifier q m" "\<forall>x\<in>set qs. \<not> ends_in_minutes x"
    for ps q qs m
  proof -
    from qs that(1)
    have "\<forall>p\<in>set (map ?b ps). \<not> ends_in_minutes p \<or> (\<exists>m. minutes_qualifier p m)"
      by simp
    from qualifiers_recognized [OF this, of 0 False]
    obtain w1 k1 where p1: "qualifiers (map ?b ps) 0 False = Done (Inr (w1, k1))"
      by auto
    from that(3) have "\<forall>p\<in>set (map ?b qs). \<not> ends_in_minutes p" by simp
    from qualifiers_no_minutes [OF this]
    have p3: "qualifiers (map ?b qs) m k1
        = Done (Inr (m, k1 \<or> (\<exists>p\<in>set (map ?b qs). locked_qualifier p)))" .
    have "qualifiers (map ?b quals) 0 False = qualifiers (?b q # map ?b qs) w1 k1"
      by (simp add: that(1) qualifiers_append p1)
    also have "\<dots> = qualifiers (map ?b qs) m k1"
      using that(2) by (simp add: qualifiers_minutes)
    finally show ?thesis using w p3 by simp
  qed
  have none: "w = 0" if "\<forall>q\<in>set quals. \<not> ends_in_minutes q"
  proof -
    from that have "\<forall>p\<in>set (map ?b quals). \<not> ends_in_minutes p" by simp
    from qualifiers_no_minutes [OF this, of 0 False] w show ?thesis by simp
  qed
  from hdr last none
  have general: "\<exists>w. parseHeader (header_line ids status quals)
             = Done (Inr \<lparr>ID = n, Status = status, WaitSinceMin = w, StackTrace = [],
                 CratedBy = None,
                 LockedToThread = (\<exists>q\<in>set quals. locked_qualifier q)\<rparr>) \<and>
           (\<forall>ps q qs m. quals = ps @ q # qs \<and> minutes_qualifier q m
               \<and> (\<forall>x\<in>set qs. \<not> ends_in_minutes x) \<longrightarrow> w = m) \<and>
           ((\<forall>q\<in>set quals. \<not> ends_in_minutes q) \<longrightarrow> w = 0)"
    by blast
  have ts: "textScanner
      ''goroutine 7 [chan receive, 3 minutes, locked to thread]:\<newline>\<newline>''
    = \<lparr>pending = [''goroutine 7 [chan receive, 3 minutes, locked to thread]:'', ''''],
       failure = None\<rparr>"
    by (simp add: textScanner_def rawLines_def Split.simps dropCR_def MaxScanTokenSize_def)
  have h: "parseHeader ''goroutine 7 [chan receive, 3 minutes, locked to thread]:''
    = Done (Inr \<lparr>ID = 7, Status = ''chan receive'', WaitSinceMin = 3, StackTrace = [],
        CratedBy = None, LockedToThread = True\<rparr>)"
    by code_simp
  have example: "ParseStackFrame (textScanner
      ''goroutine 7 [chan receive, 3 minutes, locked to thread]:\<newline>\<newline>'')
    = Done ([\<lparr>ID = 7, Status = ''chan receive'', WaitSinceMin = 3, StackTrace = [],
          CratedBy = None, LockedToThread = True\<rparr>], None)"
    unfolding ts
    by (simp add: ParseStackFrame_def headers_line h frames_blank headers_end Err_def)
  from general example show ?thesis ..
qed

theorem recognized_qualifiers_witness:
  "ParseInt ''7'' 10 64 = Some 7 \<and>
   minutes_qualifier ''3 minutes'' 3 \<and>
   locked_qualifier ''locked to thread'' \<and>
   \<not> ends_in_minutes ''locked to thread'' \<and>
   parseHeader ''goroutine 7 [chan receive, 3 minutes, locked to thread]:''
     = Done (Inr \<lparr>ID = 7, Status = ''chan receive'', WaitSinceMin = 3, StackTrace = [],
         CratedBy = None, LockedToThread = True\<rparr>)"
proof -
  have n: "ParseInt ''7'' 10 64 = Some 7"
    by code_simp
  have n3: "ParseInt ''3'' 10 64 = Some 3"
    by code_simp
  have m: "minutes_qualifier ''3 minutes'' 3"
    using minutes_qualifier_text [OF n3] by simp
  have l: "locked_qualifier ''locked to thread''"
    by (rule locked_qualifier_text)
  have e: "\<not> ends_in_minutes ''locked to thread''"
    using l by (rule locked_not_minutes)
  have s: "CHR '','' \<notin> set ''chan receive''"
    by simp
  have q: "\<forall>q\<in>set [''3 minutes'', ''locked to thread'']. CHR '','' \<notin> set q
             \<and> (\<not> ends_in_minutes q \<or> (\<exists>m. minutes_qualifier q m))"
    using m e by auto
  from recognized_qualifiers [OF n s q]
  obtain w where h: "parseHeader
        (header_line ''7'' ''chan receive'' [''3 minutes'', ''locked to thread''])
      = Done (Inr \<lparr>ID = 7, Status = ''chan receive'', WaitSinceMin = w, StackTrace = [],
          CratedBy = None,
          LockedToThread = (\<exists>q\<in>set [''3 minutes'', ''locked to thread'']. locked_qualifier q)\<rparr>)"
    and w: "\<forall>ps q qs m. [''3 minutes'', ''locked to thread''] = ps @ q # qs
        \<and> minutes_qualifier q m \<and> (\<forall>x\<in>set qs. \<not> ends_in_minutes x) \<longrightarrow> w = m"
    by blast
  from w [rule_format, of "[]" "''3 minutes''" "[''locked to thread'']" 3] m e
  have "w = 3"
    by simp
  with h l have "parseHeader ''goroutine 7 [chan receive, 3 minutes, locked to thread]:''
     = Done (Inr \<lparr>ID = 7, Status = ''chan receive'', WaitSinceMin = 3, StackTrace = [],
         CratedBy = None, LockedToThread = True\<rparr>)"
    by (simp add: header_line_def)
  with n m l e show ?thesis
    by blast
qed

section \<open>Whole dumps\<close>

text \<open>
  Claim C6: a well-formed input of a single block yields exactly one record, whose
  \<^verbatim>\<open>ID\<close>, \<^verbatim>\<open>Status\<close>, \<^verbatim>\<open>WaitSinceMin\<close> and \<^verbatim>\<open>LockedToThread\<close> are those written in the
  header. The header is the one the runtime prints, \<^verbatim>\<open>goroutine <id> [<status>\<close>, then
  \<^verbatim>\<open>, <N> minutes\<close> when there is a wait, then \<^verbatim>\<open>, locked to thread\<close> when the unit is
  locked, then \<^verbatim>\<open>]:\<close>; every entry of the block has a function name and a position line
  that parses; the block ends with a blank line or with the stream. The record also
  carries the frames of the entries, in their order. The input of the spec's example
  yields the one record, with the one frame, that the spec gives.
\<close>

theorem single_block:
  assumes ids: "ParseInt ids 10 64 = Some n" and st: "CHR '','' \<notin> set status"
    and w: "case mins of None \<Rightarrow> w = 0 | Some ds \<Rightarrow> ParseInt ds 10 64 = Some w"
    and es: "\<forall>en\<in>set es. fst en \<noteq> [] \<and> frame_of en \<noteq> None"
    and tail: "tail = [] \<or> tail = [[]]"
  shows "ParseStackFrame
           \<lparr>pending = runtime_header ids status mins locked # entry_lines es @ tail,
            failure = None\<rparr>
         = Done ([\<lparr>ID = n, Status = status, WaitSinceMin = w, StackTrace = trace_of es,
                   CratedBy = creator_of es, LockedToThread = locked\<rparr>], None) \<and>
         ParseStackFrame (textScanner
             (''goroutine 5 [running]:\<newline>main.foo\<newline>'' @ [CHR 0x09]
                @ ''/a/b.go:10 +0x1a\<newline>\<newline>''))
         = Done ([\<lparr>ID = 5, Status = ''running'', WaitSinceMin = 0,
                   StackTrace = [\<lparr>FuncName = ''main.foo'', File = ''/a/b.go'', Line = 10,
                                  Position = Some 0x1a\<rparr>],
                   CratedBy = None, LockedToThread = False\<rparr>], None)"
proof -
  from es have es': "\<forall>en\<in>set es. fst en \<noteq> [] \<and> stackPos (snd en) \<noteq> Panic"
    by (auto simp: frame_of_def)
  note h = parseHeader_runtime_header [OF ids st w, of locked]
  from tail have general: "ParseStackFrame
      \<lparr>pending = runtime_header ids status mins locked # entry_lines es @ tail,
       failure = None\<rparr>
    = Done ([\<lparr>ID = n, Status = status, WaitSinceMin = w, StackTrace = trace_of es,
          CratedBy = creator_of es, LockedToThread = locked\<rparr>], None)"
  proof
    assume "tail = []"
    then show ?thesis
      by (simp add: ParseStackFrame_def headers_line h frames_block(2) [OF es'] headers_end
            Err_def split: option.splits)
  next
    assume "tail = [[]]"
    then show ?thesis
      by (simp add: ParseStackFrame_def headers_line h frames_block(1) [OF es'] headers_end
            Err_def split: option.splits)
  qed
  have ts: "textScanner
      (''goroutine 5 [running]:\<newline>main.foo\<newline>'' @ [CHR 0x09]
         @ ''/a/b.go:10 +0x1a\<newline>\<newline>'')
    = \<lparr>pending = [''goroutine 5 [running]:'', ''main.foo'',
         CHR 0x09 # ''/a/b.go:10 +0x1a'', ''''], failure = None\<rparr>"
    by (simp add: textScanner_def rawLines_def Split.simps dropCR_def MaxScanTokenSize_def)
  have h5: "parseHeader ''goroutine 5 [running]:''
    = Done (Inr \<lparr>ID = 5, Status = ''running'', WaitSinceMin = 0, StackTrace = [],
        CratedBy = None, LockedToThread = False\<rparr>)"
    by code_simp
  have p5: "stackPos (CHR 0x09 # ''/a/b.go:10 +0x1a'')
    = Done (Inr (''/a/b.go'', 10, Some 0x1a))"
    by code_simp
  have example: "ParseStackFrame (textScanner
      (''goroutine 5 [running]:\<newline>main.foo\<newline>'' @ [CHR 0x09]
         @ ''/a/b.go:10 +0x1a\<newline>\<newline>''))
    = Done ([\<lparr>ID = 5, Status = ''running'', WaitSinceMin = 0,
          StackTrace = [\<lparr>FuncName = ''main.foo'', File = ''/a/b.go'', Line = 10,
                         Position = Some 0x1a\<rparr>],
          CratedBy = None, LockedToThread = False\<rparr>], None)"
    unfolding ts
    by (simp add: ParseStackFrame_def headers_line h5 frames_entry p5 frames_blank
          headers_end Err_def HasPrefix_def)
  from general example show ?thesis ..
qed

theorem single_block_witness:
  "ParseInt ''18'' 10 64 = Some 18 \<and> ParseInt ''3'' 10 64 = Some 3 \<and>
   frame_of (''main.worker(0xc000010000)'', CHR 0x09 # ''/srv/app/worker.go:42 +0x8f'')
     = Some \<lparr>FuncName = ''main.worker(0xc000010000)'', File = ''/srv/app/worker.go'',
         Line = 42, Position = Some 0x8f\<rparr> \<and>
   frame_of (''created by main.start'', CHR 0x09 # ''/srv/app/main.go:17 +0x5c'')
     = Some \<lparr>FuncName = ''main.start'', File = ''/srv/app/main.go'', Line = 17,
         Position = Some 0x5c\<rparr> \<and>
   ParseStackFrame
     \<lparr>pending = [''goroutine 18 [chan receive, 3 minutes, locked to thread]:'',
        ''main.worker(0xc000010000)'', CHR 0x09 # ''/srv/app/worker.go:42 +0x8f'',
        ''created by main.start'', CHR 0x09 # ''/srv/app/main.go:17 +0x5c'', ''''],
      failure = None\<rparr>
   = Done ([\<lparr>ID = 18, Status = ''chan receive'', WaitSinceMin = 3,
         StackTrace = [\<lparr>FuncName = ''main.worker(0xc000010000)'',
                        File = ''/srv/app/worker.go'', Line = 42, Position = Some 0x8f\<rparr>],
         CratedBy = Some \<lparr>FuncName = ''main.start'', File = ''/srv/app/main.go'',
                      Line = 17, Position = Some 0x5c\<rparr>,
         LockedToThread = True\<rparr>], None)"
proof -
  let ?e1 = "(''main.worker(0xc000010000)'', CHR 0x09 # ''/srv/app/worker.go:42 +0x8f'')"
  let ?e2 = "(''created by main.start'', CHR 0x09 # ''/srv/app/main.go:17 +0x5c'')"
  have n: "ParseInt ''18'' 10 64 = Some 18"
    by code_simp
  have n3: "ParseInt ''3'' 10 64 = Some 3"
    by code_simp
  have p1: "stackPos (CHR 0x09 # ''/srv/app/worker.go:42 +0x8f'')
      = Done (Inr (''/srv/app/worker.go'', 42, Some 0x8f))"
    by code_simp
  have p2: "stackPos (CHR 0x09 # ''/srv/app/main.go:17 +0x5c'')
      = Done (Inr (''/srv/app/main.go'', 17, Some 0x5c))"
    by code_simp
  have c1: "\<not> created_by ?e1" and c2: "created_by ?e2"
    by (simp_all add: created_by_def HasPrefix_def)
  have f1: "frame_of ?e1 = Some \<lparr>FuncName = ''main.worker(0xc000010000)'',
      File = ''/srv/app/worker.go'', Line = 42, Position = Some 0x8f\<rparr>"
    using c1 by (simp add: frame_of_def p1)
  have f2: "frame_of ?e2 = Some \<lparr>FuncName = ''main.start'', File = ''/srv/app/main.go'',
      Line = 17, Position = Some 0x5c\<rparr>"
    using c2 by (simp add: frame_of_def p2)
  have s: "CHR '','' \<notin> set ''chan receive''"
    by simp
  have w: "case Some ''3'' of None \<Rightarrow> (3::int) = 0 | Some ds \<Rightarrow> ParseInt ds 10 64 = Some 3"
    using n3 by simp
  have es: "\<forall>en\<in>set [?e1, ?e2]. fst en \<noteq> [] \<and> frame_of en \<noteq> None"
    using f1 f2 by simp
  have t: "[[]] = [] \<or> [[]] = [[]::string]"
    by simp
  from single_block [OF n s w es t, of True]
  have "ParseStackFrame
     \<lparr>pending = runtime_header ''18'' ''chan receive'' (Some ''3'') True
         # entry_lines [?e1, ?e2] @ [[]], failure = None\<rparr>
   = Done ([\<lparr>ID = 18, Status = ''chan receive'', WaitSinceMin = 3,
         StackTrace = trace_of [?e1, ?e2], CratedBy = creator_of [?e1, ?e2],
         LockedToThread = True\<rparr>], None)"
    by blast
  moreover have "trace_of [?e1, ?e2] = [\<lparr>FuncName = ''main.worker(0xc000010000)'',
      File = ''/srv/app/worker.go'', Line = 42, Position = Some 0x8f\<rparr>]"
    using c1 c2 by (simp add: trace_of_simps f1)
  moreover have "creator_of [?e1, ?e2] = Some \<lparr>FuncName = ''main.start'',
      File = ''/srv/app/main.go'', Line = 17, Position = Some 0x5c\<rparr>"
    using c1 c2 by (simp add: creator_of_simps f2)
  ultimately have "ParseStackFrame
     \<lparr>pending = [''goroutine 18 [chan receive, 3 minutes, locked to thread]:'',
        ''main.worker(0xc000010000)'', CHR 0x09 # ''/srv/app/worker.go:42 +0x8f'',
        ''created by main.start'', CHR 0x09 # ''/srv/app/main.go:17 +0x5c'', ''''],
      failure = None\<rparr>
   = Done ([\<lparr>ID = 18, Status = ''chan receive'', WaitSinceMin = 3,
         StackTrace = [\<lparr>FuncName = ''main.worker(0xc000010000)'',
                        File = ''/srv/app/worker.go'', Line = 42, Position = Some 0x8f\<rparr>],
         CratedBy = Some \<lparr>FuncName = ''main.start'', File = ''/srv/app/main.go'',
                      Line = 17, Position = Some 0x5c\<rparr>,
         LockedToThread = True\<rparr>], None)"
    by (simp add: runtime_header_def header_line_def)
  with n n3 f1 f2 show ?thesis
    by blast
qed

text \<open>
  Claim C4: a block whose header is malformed (fewer than three tokens between blanks,
  a first token other than \<^verbatim>\<open>goroutine\<close>, or an id that is not an integer) is dropped
  entirely, every well-formed block after it is still parsed and returned, and the
  records come in the order of their headers. Stated for a stream of blocks, each
  ended by its blank line, each either well formed or with a malformed header; the
  lines of a dropped block are read one by one as headers, so its body holds no line
  that could pass for one. The result is the list of the records of the blocks, in
  the order of the stream, where exactly the blocks with a malformed header have none.
\<close>

theorem malformed_blocks_dropped:
  assumes "\<forall>b\<in>set bs. well_formed b \<or> malformed_block b"
  shows "ParseStackFrame \<lparr>pending = concat (map block_lines bs), failure = e\<rparr>
           = Done (List.map_filter record_of bs, e) \<and>
         (\<forall>b\<in>set bs. (record_of b = None) = malformed_block b)"
proof -
  from headers_blocks [OF assms, of "[]" "[]" e]
  have "ParseStackFrame \<lparr>pending = concat (map block_lines bs), failure = e\<rparr>
      = Done (List.map_filter record_of bs, e)"
    by (simp add: ParseStackFrame_def headers_end Err_def)
  moreover have "(record_of b = None) = malformed_block b" if "b \<in> set bs" for b
  proof -
    from that assms have "well_formed b \<or> malformed_block b" by blast
    then show ?thesis
    proof
      assume wf: "well_formed b"
      then obtain r where r: "parseHeader (head_line b) = Done (Inr r)"
        by (auto simp: well_formed_def header_parses_iff)
      with parseHeader_malformed [of "head_line b"] have "\<not> malformed_block b"
        by (auto simp: malformed_block_def)
      with r show ?thesis by (simp add: record_of_def)
    next
      assume mf: "malformed_block b"
      with parseHeader_malformed [of "head_line b"] show ?thesis
        by (auto simp: malformed_block_def record_of_def)
    qed
  qed
  ultimately show ?thesis by blast
qed

theorem malformed_blocks_dropped_witness:
  "malformed_block
     (Block ''goroutine x [running]:'' [(''main.lost'', CHR 0x09 # ''/a/lost.go:3 +0x10'')]) \<and>
   malformed_block (Block ''routine 2 [running]:'' []) \<and>
   well_formed
     (Block ''goroutine 5 [running]:'' [(''main.foo'', CHR 0x09 # ''/a/b.go:10 +0x1a'')]) \<and>
   well_formed (Block ''goroutine 7 [chan receive, 3 minutes, locked to thread]:'' []) \<and>
   ParseStackFrame
     \<lparr>pending = [''goroutine x [running]:'', ''main.lost'', CHR 0x09 # ''/a/lost.go:3 +0x10'',
        '''',
        ''goroutine 5 [running]:'', ''main.foo'', CHR 0x09 # ''/a/b.go:10 +0x1a'', '''',
        ''routine 2 [running]:'', '''',
        ''goroutine 7 [chan receive, 3 minutes, locked to thread]:'', ''''],
      failure = None\<rparr>
   = Done ([\<lparr>ID = 5, Status = ''running'', WaitSinceMin = 0,
         StackTrace = [\<lparr>FuncName = ''main.foo'', File = ''/a/b.go'', Line = 10,
                        Position = Some 0x1a\<rparr>],
         CratedBy = None, LockedToThread = False\<rparr>,
       \<lparr>ID = 7, Status = ''chan receive'', WaitSinceMin = 3, StackTrace = [],
         CratedBy = None, LockedToThread = True\<rparr>], None)"
proof -
  let ?b1 = "Block ''goroutine x [running]:''
      [(''main.lost'', CHR 0x09 # ''/a/lost.go:3 +0x10'')]"
  let ?b2 = "Block ''goroutine 5 [running]:'' [(''main.foo'', CHR 0x09 # ''/a/b.go:10 +0x1a'')]"
  let ?b3 = "Block ''routine 2 [running]:'' []"
  let ?b4 = "Block ''goroutine 7 [chan receive, 3 minutes, locked to thread]:'' []"
  have m1: "malformed_header ''goroutine x [running]:''"
    by code_simp
  have m2: "malformed_header ''main.lost''"
    by code_simp
  have m3: "malformed_header (CHR 0x09 # ''/a/lost.go:3 +0x10'')"
    by code_simp
  have m4: "malformed_header ''routine 2 [running]:''"
    by code_simp
  have h5: "parseHeader ''goroutine 5 [running]:''
    = Done (Inr \<lparr>ID = 5, Status = ''running'', WaitSinceMin = 0, StackTrace = [],
        CratedBy = None, LockedToThread = False\<rparr>)"
    by code_simp
  have h7: "parseHeader ''goroutine 7 [chan receive, 3 minutes, locked to thread]:''
    = Done (Inr \<lparr>ID = 7, Status = ''chan receive'', WaitSinceMin = 3, StackTrace = [],
        CratedBy = None, LockedToThread = True\<rparr>)"
    by code_simp
  have p5: "stackPos (CHR 0x09 # ''/a/b.go:10 +0x1a'')
    = Done (Inr (''/a/b.go'', 10, Some 0x1a))"
    by code_simp
  have c5: "\<not> created_by (''main.foo'', CHR 0x09 # ''/a/b.go:10 +0x1a'')"
    by (simp add: created_by_def HasPrefix_def)
  have f5: "frame_of (''main.foo'', CHR 0x09 # ''/a/b.go:10 +0x1a'')
    = Some \<lparr>FuncName = ''main.foo'', File = ''/a/b.go'', Line = 10, Position = Some 0x1a\<rparr>"
    using c5 by (simp add: frame_of_def p5)
  have b1: "malformed_block ?b1" and b3: "malformed_block ?b3"
    using m1 m2 m3 m4 by (simp_all add: malformed_block_def)
  have b2: "well_formed ?b2" and b4: "well_formed ?b4"
    using h5 h7 f5 by (simp_all add: well_formed_def header_parses_def)
  have r1: "record_of ?b1 = None" and r3: "record_of ?b3 = None"
    using parseHeader_malformed [OF m1] parseHeader_malformed [OF m4]
    by (auto simp: record_of_def)
  have r2: "record_of ?b2 = Some \<lparr>ID = 5, Status = ''running'', WaitSinceMin = 0,
      StackTrace = [\<lparr>FuncName = ''main.foo'', File = ''/a/b.go'', Line = 10,
                     Position = Some 0x1a\<rparr>],
      CratedBy = None, LockedToThread = False\<rparr>"
    using c5 by (simp add: record_of_def h5 trace_of_simps creator_of_simps f5)
  have r4: "record_of ?b4 = Some \<lparr>ID = 7, Status = ''chan receive'', WaitSinceMin = 3,
      StackTrace = [], CratedBy = None, LockedToThread = True\<rparr>"
    by (simp add: record_of_def h7 trace_of_simps creator_of_simps)
  have all: "\<forall>b\<in>set [?b1, ?b2, ?b3, ?b4]. well_formed b \<or> malformed_block b"
    using b1 b2 b3 b4 by simp
  from malformed_blocks_dropped [OF all, of None]
  have "ParseStackFrame
      \<lparr>pending = concat (map block_lines [?b1, ?b2, ?b3, ?b4]), failure = None\<rparr>
    = Done (List.map_filter record_of [?b1, ?b2, ?b3, ?b4], None)"
    by blast
  then have "ParseStackFrame
     \<lparr>pending = [''goroutine x [running]:'', ''main.lost'', CHR 0x09 # ''/a/lost.go:3 +0x10'',
        '''',
        ''goroutine 5 [running]:'', ''main.foo'', CHR 0x09 # ''/a/b.go:10 +0x1a'', '''',
        ''routine 2 [running]:'', '''',
        ''goroutine 7 [chan receive, 3 minutes, locked to thread]:'', ''''],
      failure = None\<rparr>
   = Done ([\<lparr>ID = 5, Status = ''running'', WaitSinceMin = 0,
         StackTrace = [\<lparr>FuncName = ''main.foo'', File = ''/a/b.go'', Line = 10,
                        Position = Some 0x1a\<rparr>],
         CratedBy = None, LockedToThread = False\<rparr>,
       \<lparr>ID = 7, Status = ''chan receive'', WaitSinceMin = 3, StackTrace = [],
         CratedBy = None, LockedToThread = True\<rparr>], None)"
    by (simp add: block_lines_def r1 r2 r3 r4)
  with b1 b2 b3 b4 show ?thesis
    by blast
qed

text \<open>
  Claim C1, as the spec states it: when the underlying read fails, \<^verbatim>\<open>ParseStackFrame\<close>
  returns the error as its sole result and no records at all, even if some were
  assembled before the failure. The code returns both of its named results as they
  stand: after two valid blocks and a failing read it returns the two records
  together with the error.
\<close>

theorem read_failure_returns_records:
  "ParseStackFrame
     \<lparr>pending = [''goroutine 5 [running]:'', ''main.foo'', CHR 0x09 # ''/a/b.go:10 +0x1a'',
        '''',
        ''goroutine 7 [chan receive, 3 minutes, locked to thread]:'', ''''],
      failure = Some (ErrRead ''unexpected EOF'')\<rparr>
   = Done ([\<lparr>ID = 5, Status = ''running'', WaitSinceMin = 0,
         StackTrace = [\<lparr>FuncName = ''main.foo'', File = ''/a/b.go'', Line = 10,
                        Position = Some 0x1a\<rparr>],
         CratedBy = None, LockedToThread = False\<rparr>,
       \<lparr>ID = 7, Status = ''chan receive'', WaitSinceMin = 3, StackTrace = [],
         CratedBy = None, LockedToThread = True\<rparr>], Some (ErrRead ''unexpected EOF''))"
proof -
  have h5: "parseHeader ''goroutine 5 [running]:''
    = Done (Inr \<lparr>ID = 5, Status = ''running'', WaitSinceMin = 0, StackTrace = [],
        CratedBy = None, LockedToThread = False\<rparr>)"
    by code_simp
  have h7: "parseHeader ''goroutine 7 [chan receive, 3 minutes, locked to thread]:''
    = Done (Inr \<lparr>ID = 7, Status = ''chan receive'', WaitSinceMin = 3, StackTrace = [],
        CratedBy = None, LockedToThread = True\<rparr>)"
    by code_simp
  have p5: "stackPos (CHR 0x09 # ''/a/b.go:10 +0x1a'')
    = Done (Inr (''/a/b.go'', 10, Some 0x1a))"
    by code_simp
  show ?thesis
    by (simp add: ParseStackFrame_def headers_line h5 h7 frames_entry p5 frames_blank
          headers_end Err_def HasPrefix_def)
qed

text \<open>
  Claim C1, amended: when the underlying read fails, \<^verbatim>\<open>ParseStackFrame\<close> returns that
  error as its error result together with the records assembled from the lines read
  before the failure; nothing is discarded on a stream error. This holds wherever the
  parse of those lines returns at all. When the lines read before the failure are whole
  blocks, each well formed or with a malformed header, the result is the records of the
  well-formed blocks, in their order, and the error. And whenever the same lines
  followed by a clean end of the stream yield records, the failing stream yields
  exactly those records and the error. Lines on which the parser faults, such as a
  position line cut before its colon, are left out here: the fault is that of claim
  C10, with or without a failing read. The failure of the reader is \<open>ErrRead m\<close>.
\<close>

theorem read_failure_keeps_records:
  assumes "failure sc = Some (ErrRead m)"
  shows "(\<forall>bs. pending sc = concat (map block_lines bs)
              \<and> (\<forall>b\<in>set bs. well_formed b \<or> malformed_block b) \<longrightarrow>
            ParseStackFrame sc = Done (List.map_filter record_of bs, Some (ErrRead m))) \<and>
         (\<forall>routines x. ParseStackFrame (sc\<lparr>failure := None\<rparr>) = Done (routines, x) \<longrightarrow>
            ParseStackFrame sc = Done (routines, Some (ErrRead m)))"
proof -
  have blocks: "ParseStackFrame sc = Done (List.map_filter record_of bs, Some (ErrRead m))"
    if p: "pending sc = concat (map block_lines bs)"
      and b: "\<forall>b\<in>set bs. well_formed b \<or> malformed_block b" for bs
  proof -
    from assms p
    have sc: "sc = \<lparr>pending = concat (map block_lines bs), failure = Some (ErrRead m)\<rparr>"
      by (cases sc) simp
    from headers_blocks [OF b, of "[]" "[]" "Some (ErrRead m)"]
    have "ParseStackFrame
        \<lparr>pending = concat (map block_lines bs), failure = Some (ErrRead m)\<rparr>
      = Done (List.map_filter record_of bs, Some (ErrRead m))"
      by (simp add: ParseStackFrame_def headers_end Err_def)
    with sc show ?thesis
      by simp
  qed
  have clean: "ParseStackFrame sc = Done (routines, Some (ErrRead m))"
    if c: "ParseStackFrame (sc\<lparr>failure := None\<rparr>) = Done (routines, x)" for routines x
  proof -
    from assms have sc: "sc = \<lparr>pending = pending sc, failure = Some (ErrRead m)\<rparr>"
      by (cases sc) simp
    then have sc': "sc\<lparr>failure := None\<rparr> = \<lparr>pending = pending sc, failure = None\<rparr>"
      by (metis Scanner.update_convs(2))
    have "ParseStackFrame \<lparr>pending = pending sc, failure = Some (ErrRead m)\<rparr> =
       (case ParseStackFrame \<lparr>pending = pending sc, failure = None\<rparr> of
          Panic \<Rightarrow> Panic
        | Done (routines, x) \<Rightarrow> Done (routines, Some (ErrRead m)))"
      unfolding ParseStackFrame_def
      by (subst headers_failure [of _ _ "Some (ErrRead m)" None])
        (simp add: Err_def split: outcome.splits prod.splits)
    with c sc' have "ParseStackFrame \<lparr>pending = pending sc, failure = Some (ErrRead m)\<rparr>
        = Done (routines, Some (ErrRead m))"
      by simp
    with sc show ?thesis
      by metis
  qed
  from blocks clean show ?thesis
    by blast
qed

theorem read_failure_keeps_records_witness:
  "failure \<lparr>pending = [''goroutine 5 [running]:'', ''main.foo'',
       CHR 0x09 # ''/a/b.go:10 +0x1a'', ''''],
     failure = Some (ErrRead ''connection reset'')\<rparr> = Some (ErrRead ''connection reset'') \<and>
   well_formed
     (Block ''goroutine 5 [running]:'' [(''main.foo'', CHR 0x09 # ''/a/b.go:10 +0x1a'')]) \<and>
   ParseStackFrame \<lparr>pending = [''goroutine 5 [running]:'', ''main.foo'',
       CHR 0x09 # ''/a/b.go:10 +0x1a'', ''''],
     failure = Some (ErrRead ''connection reset'')\<rparr>
     = Done ([\<lparr>ID = 5, Status = ''running'', WaitSinceMin = 0,
         StackTrace = [\<lparr>FuncName = ''main.foo'', File = ''/a/b.go'', Line = 10,
                        Position = Some 0x1a\<rparr>],
         CratedBy = None, LockedToThread = False\<rparr>], Some (ErrRead ''connection reset'')) \<and>
   ParseStackFrame \<lparr>pending = [''goroutine 5 [running]:'', ''main.foo'',
       CHR 0x09 # ''/a/b.go:10 +0x1a'', ''main.ba''], failure = None\<rparr>
     = Done ([\<lparr>ID = 5, Status = ''running'', WaitSinceMin = 0,
         StackTrace = [\<lparr>FuncName = ''main.foo'', File = ''/a/b.go'', Line = 10,
                        Position = Some 0x1a\<rparr>],
         CratedBy = None, LockedToThread = False\<rparr>], None) \<and>
   ParseStackFrame \<lparr>pending = [''goroutine 5 [running]:'', ''main.foo'',
       CHR 0x09 # ''/a/b.go:10 +0x1a'', ''main.ba''],
     failure = Some (ErrRead ''connection reset'')\<rparr>
     = Done ([\<lparr>ID = 5, Status = ''running'', WaitSinceMin = 0,
         StackTrace = [\<lparr>FuncName = ''main.foo'', File = ''/a/b.go'', Line = 10,
                        Position = Some 0x1a\<rparr>],
         CratedBy = None, LockedToThread = False\<rparr>], Some (ErrRead ''connection reset''))"
proof -
  let ?b = "Block ''goroutine 5 [running]:'' [(''main.foo'', CHR 0x09 # ''/a/b.go:10 +0x1a'')]"
  let ?whole = "[''goroutine 5 [running]:'', ''main.foo'', CHR 0x09 # ''/a/b.go:10 +0x1a'', '''']"
  let ?cut = "[''goroutine 5 [running]:'', ''main.foo'', CHR 0x09 # ''/a/b.go:10 +0x1a'',
      ''main.ba'']"
  let ?e = "Some (ErrRead ''connection reset'')"
  let ?r = "\<lparr>ID = 5, Status = ''running'', WaitSinceMin = 0,
      StackTrace = [\<lparr>FuncName = ''main.foo'', File = ''/a/b.go'', Line = 10,
                     Position = Some 0x1a\<rparr>],
      CratedBy = None, LockedToThread = False\<rparr>"
  have h5: "parseHeader ''goroutine 5 [running]:''
    = Done (Inr \<lparr>ID = 5, Status = ''running'', WaitSinceMin = 0, StackTrace = [],
        CratedBy = None, LockedToThread = False\<rparr>)"
    by code_simp
  have p5: "stackPos (CHR 0x09 # ''/a/b.go:10 +0x1a'')
    = Done (Inr (''/a/b.go'', 10, Some 0x1a))"
    by code_simp
  have c5: "\<not> created_by (''main.foo'', CHR 0x09 # ''/a/b.go:10 +0x1a'')"
    by (simp add: created_by_def HasPrefix_def)
  have f5: "frame_of (''main.foo'', CHR 0x09 # ''/a/b.go:10 +0x1a'')
    = Some \<lparr>FuncName = ''main.foo'', File = ''/a/b.go'', Line = 10, Position = Some 0x1a\<rparr>"
    using c5 by (simp add: frame_of_def p5)
  have wf: "well_formed ?b"
    using h5 f5 by (simp add: well_formed_def header_parses_def)
  have rec: "record_of ?b = Some ?r"
    using c5 by (simp add: record_of_def h5 trace_of_simps creator_of_simps f5)
  have f1: "failure \<lparr>pending = ?whole, failure = ?e\<rparr> = ?e"
    by simp
  have f2: "failure \<lparr>pending = ?cut, failure = ?e\<rparr> = ?e"
    by simp
  have lines: "pending \<lparr>pending = ?whole, failure = ?e\<rparr> = concat (map block_lines [?b])"
    by (simp add: block_lines_def)
  have all: "\<forall>b\<in>set [?b]. well_formed b \<or> malformed_block b"
    using wf by simp
  from read_failure_keeps_records [OF f1] lines all
  have "ParseStackFrame \<lparr>pending = ?whole, failure = ?e\<rparr>
      = Done (List.map_filter record_of [?b], ?e)"
    by blast
  then have whole: "ParseStackFrame \<lparr>pending = ?whole, failure = ?e\<rparr> = Done ([?r], ?e)"
    by (simp add: rec)
  have clean: "ParseStackFrame \<lparr>pending = ?cut, failure = None\<rparr> = Done ([?r], None)"
    by (simp add: ParseStackFrame_def headers_line h5 frames_entry p5 frames_last
          headers_end Err_def HasPrefix_def)
  then have "ParseStackFrame (\<lparr>pending = ?cut, failure = ?e\<rparr>\<lparr>failure := None\<rparr>)
      = Done ([?r], None)"
    by simp
  with read_failure_keeps_records [OF f2]
  have cut: "ParseStackFrame \<lparr>pending = ?cut, failure = ?e\<rparr> = Done ([?r], ?e)"
    by blast
  from f1 wf whole clean cut show ?thesis
    by blast
qed

section \<open>Runtime faults and rendering\<close>

text \<open>What the inner loop does with a position line that does not parse: when
  \<^verbatim>\<open>parseStackPos\<close> returns an error the entry is skipped and the loop goes on; every
  line that is not blank and has no colon makes it fault instead.\<close>

lemma frames_skip_entry:
  "t \<noteq> [] \<Longrightarrow> stackPos p = Done (Inl x) \<Longrightarrow>
   frames r \<lparr>pending = t # p # ls, failure = e\<rparr> = frames r \<lparr>pending = ls, failure = e\<rparr>"
  by (simp add: frames_entry)

lemma stackPos_without_colon:
  "TrimSpace l \<noteq> [] \<Longrightarrow> CHR '':'' \<notin> set (TrimSpace l) \<Longrightarrow> stackPos l = Panic"
  by (simp add: stackPos_def LastIndex_single_notin slice_def)

lemma frames_fault:
  "t \<noteq> [] \<Longrightarrow> TrimSpace p \<noteq> [] \<Longrightarrow> CHR '':'' \<notin> set (TrimSpace p) \<Longrightarrow>
   frames r \<lparr>pending = t # p # ls, failure = e\<rparr> = Panic"
  by (simp add: frames_entry stackPos_without_colon)

text \<open>
  Claim C10: the parsing helpers are total, that is \<^verbatim>\<open>parseStackPos\<close> and \<^verbatim>\<open>parseHeader\<close>
  return a value or an error on every text and never abort with a runtime fault.
  The code does abort: on the position line \<^verbatim>\<open>abc\<close>, which has no colon,
  \<^verbatim>\<open>LastIndex\<close> gives \<open>-1\<close> and \<^verbatim>\<open>text[:fileLineSep]\<close> is out of range; on a header
  whose qualifier is the bare word \<^verbatim>\<open>minutes\<close>, \<^verbatim>\<open>Index\<close> gives \<open>-1\<close> and
  \<^verbatim>\<open>part[:minUnitSep]\<close> is out of range.
\<close>

theorem parsing_helpers_panic:
  "parseStackPos \<lparr>pending = [''abc''], failure = None\<rparr> = Panic \<and>
   parseHeader ''goroutine 1 [x, minutes]:'' = Panic"
proof -
  have "stackPos ''abc'' = Panic"
    by code_simp
  moreover have "parseHeader ''goroutine 1 [x, minutes]:'' = Panic"
    by code_simp
  ultimately show ?thesis
    by (simp add: parseStackPos_def Scan_def)
qed

text \<open>
  Claim C9: \<^verbatim>\<open>String\<close> renders a frame as
  \<^verbatim>\<open><function>\n   file://<file>#<line> +0x<position>\<close> with the frame's \<^verbatim>\<open>Position\<close>
  value in hexadecimal. The code prints the pointer, not the value it points to: the
  frame of \<^verbatim>\<open>main.foo\<close> at \<^verbatim>\<open>/a/b.go:10\<close> with position \<open>0x1a\<close>, its position
  variable living at address \<open>0xc000014090\<close>, is rendered with
  \<^verbatim>\<open>+0xc000014090\<close> and not with \<^verbatim>\<open>+0x1a\<close>.
\<close>

theorem String_renders_the_address:
  "String 0xc000014090
     \<lparr>FuncName = ''main.foo'', File = ''/a/b.go'', Line = 10, Position = Some 0x1a\<rparr>
   = ''main.foo\<newline>   file:///a/b.go#10 +0xc000014090'' \<and>
   String 0xc000014090
     \<lparr>FuncName = ''main.foo'', File = ''/a/b.go'', Line = 10, Position = Some 0x1a\<rparr>
   \<noteq> ''main.foo\<newline>   file:///a/b.go#10 +0x1a''"
  by (simp add: String_def fmt_x_def fmt_d_def pointerValue_def digitsOf.simps digitChar_def)

text \<open>
  Claim C8: \<^verbatim>\<open>StackContains\<close> is true exactly when some frame's rendered string contains
  the substring case-insensitively (and false on an empty slice). The code lowers the
  rendered string only, never the substring: the frame of \<^verbatim>\<open>main.Foo\<close> is searched
  for \<^verbatim>\<open>Foo\<close>, the rendered string contains \<^verbatim>\<open>Foo\<close> as it stands, and the answer is
  false.
\<close>

theorem StackContains_misses_upper_case:
  "\<not> StackContains (\<lambda>s. s) (\<lambda>i. 0xc000014090)
       [\<lparr>FuncName = ''main.Foo'', File = ''/a/b.go'', Line = 10, Position = Some 0x1a\<rparr>]
       ''Foo'' \<and>
   Contains (String 0xc000014090
       \<lparr>FuncName = ''main.Foo'', File = ''/a/b.go'', Line = 10, Position = Some 0x1a\<rparr>)
     ''Foo''"
proof -
  have s: "String 0xc000014090
      \<lparr>FuncName = ''main.Foo'', File = ''/a/b.go'', Line = 10, Position = Some 0x1a\<rparr>
     = ''main.Foo\<newline>   file:///a/b.go#10 +0xc000014090''"
    by (simp add: String_def fmt_x_def fmt_d_def pointerValue_def digitsOf.simps digitChar_def)
  have l: "ToLower (\<lambda>s. s) ''main.Foo\<newline>   file:///a/b.go#10 +0xc000014090''
     = ''main.foo\<newline>   file:///a/b.go#10 +0xc000014090''"
    by code_simp
  have i1: "Index ''main.foo\<newline>   file:///a/b.go#10 +0xc000014090'' ''Foo'' = -1"
    by code_simp
  have i2: "Index ''main.Foo\<newline>   file:///a/b.go#10 +0xc000014090'' ''Foo'' = 5"
    by code_simp
  show ?thesis
    unfolding StackContains_def StackContainsFrom.simps s l Contains_def i1 i2 by simp
qed

text \<open>
  Claim C3: a block with exactly one malformed position line still yields its record,
  with every other frame of the block in the trace. The code skips the frame only when
  \<^verbatim>\<open>parseStackPos\<close> returns an error. On the position line \<^verbatim>\<open>no colon here\<close> it does not
  return: the slice expression faults and the whole parse aborts, so no record is
  returned at all, although the block has a second, well-formed frame.
\<close>

theorem malformed_position_line_aborts:
  "ParseStackFrame (textScanner
     (''goroutine 5 [running]:\<newline>main.foo\<newline>no colon here\<newline>main.bar\<newline>''
        @ [CHR 0x09] @ ''/a/b.go:10 +0x1a\<newline>\<newline>'')) = Panic"
proof -
  have ts: "textScanner
     (''goroutine 5 [running]:\<newline>main.foo\<newline>no colon here\<newline>main.bar\<newline>''
        @ [CHR 0x09] @ ''/a/b.go:10 +0x1a\<newline>\<newline>'')
    = \<lparr>pending = [''goroutine 5 [running]:'', ''main.foo'', ''no colon here'', ''main.bar'',
         CHR 0x09 # ''/a/b.go:10 +0x1a'', ''''], failure = None\<rparr>"
    by (simp add: textScanner_def rawLines_def Split.simps dropCR_def MaxScanTokenSize_def)
  have h: "parseHeader ''goroutine 5 [running]:''
    = Done (Inr \<lparr>ID = 5, Status = ''running'', WaitSinceMin = 0, StackTrace = [],
        CratedBy = None, LockedToThread = False\<rparr>)"
    by code_simp
  have p: "stackPos ''no colon here'' = Panic"
    by code_simp
  show ?thesis
    unfolding ts by (simp add: ParseStackFrame_def headers_line frames_entry h p)
qed

end
